theory Spec2Isabelle
  imports Main "HOL-Library.AList"
begin

section \<open>JavaScript values used by the plugin\<close>

text \<open>
  A string is the list of its UTF-16 code units. The type \<^typ>\<open>char\<close> holds the code units
  below 256, so the strings here are the texts within Latin-1; other texts are not
  represented.
\<close>

text \<open>
  The numbers the highlighter handles are page numbers supplied by the viewer and the results
  of \<^verbatim>\<open>parseInt\<close>: \<^verbatim>\<open>NaN\<close>, the two infinities, and the integers that are doubles.
  (Zero has one sign only: \<^verbatim>\<open>-0\<close> and \<^verbatim>\<open>0\<close> give the same property key, the same array
  element and the same comparisons, which is all the highlighter does with a number.)
\<close>

datatype number = NaN | Num int | PosInfinity | NegInfinity

text \<open>
  Rounding an integer to the nearest double, ties to the even significand: integers below
  \<^verbatim>\<open>2^53\<close> in magnitude are doubles; a larger one keeps its top 53 bits, rounded; from
  \<^verbatim>\<open>2^1024\<close> on the result is an infinity.
\<close>

fun bitLength :: "nat \<Rightarrow> nat" where
  "bitLength n = (if n = 0 then 0 else Suc (bitLength (n div 2)))"

definition roundMagnitude :: "nat \<Rightarrow> nat" where
  "roundMagnitude m =
     (let e = bitLength m - 53;
          q = m div 2 ^ e;
          r = m mod 2 ^ e;
          half = 2 ^ (e - 1)
      in (if half < r \<or> (r = half \<and> odd q) then q + 1 else q) * 2 ^ e)"

definition toDouble :: "int \<Rightarrow> number" where
  "toDouble x =
     (if \<bar>x\<bar> < 9007199254740992 then Num x
      else
        let m = roundMagnitude (nat \<bar>x\<bar>) in
        if 2 ^ 1024 \<le> m then (if x < 0 then NegInfinity else PosInfinity)
        else Num (if x < 0 then - int m else int m))"

text \<open>\<^verbatim>\<open>a < b\<close> and \<open>a > b\<close> on numbers: every comparison with \<^verbatim>\<open>NaN\<close> is false.\<close>

fun num_less :: "number \<Rightarrow> number \<Rightarrow> bool" where
  "num_less (Num a) (Num b) = (a < b)"
| "num_less (Num a) PosInfinity = True"
| "num_less NegInfinity (Num b) = True"
| "num_less NegInfinity PosInfinity = True"
| "num_less _ _ = False"

text \<open>\<^verbatim>\<open>a === b\<close> on numbers: \<^verbatim>\<open>NaN\<close> is not equal to itself.\<close>

fun num_strict_eq :: "number \<Rightarrow> number \<Rightarrow> bool" where
  "num_strict_eq (Num a) (Num b) = (a = b)"
| "num_strict_eq PosInfinity PosInfinity = True"
| "num_strict_eq NegInfinity NegInfinity = True"
| "num_strict_eq _ _ = False"

text \<open>\<^verbatim>\<open>a + k\<close> for an integer \<open>k\<close>: the sum, rounded to a double.\<close>

fun num_add :: "number \<Rightarrow> int \<Rightarrow> number" where
  "num_add (Num a) k = toDouble (a + k)"
| "num_add NaN k = NaN"
| "num_add PosInfinity k = PosInfinity"
| "num_add NegInfinity k = NegInfinity"

text \<open>
  \<^verbatim>\<open>xs[i]\<close> on an array: the element when \<open>i\<close> is an index of the array,
  \<^verbatim>\<open>undefined\<close> (here \<open>None\<close>) otherwise, also for a negative index, for \<^verbatim>\<open>NaN\<close> and
  for an infinity. An array has fewer than \<^verbatim>\<open>2^32 - 1\<close> elements; a number from there on is
  no array index.
\<close>

fun array_get :: "'a list \<Rightarrow> number \<Rightarrow> 'a option" where
  "array_get xs (Num i) =
     (if 0 \<le> i \<and> i < int (length xs) \<and> i < 4294967295 then Some (xs ! nat i) else None)"
| "array_get xs _ = None"

text \<open>\<^verbatim>\<open>xs[i] = v\<close> for an index of the array.\<close>

fun array_set :: "number \<Rightarrow> 'a \<Rightarrow> 'a list \<Rightarrow> 'a list" where
  "array_set (Num i) v xs = xs[nat i := v]"
| "array_set _ v xs = xs"

text \<open>
  What is thrown: a \<^verbatim>\<open>TypeError\<close>, raised by a property access on \<^verbatim>\<open>undefined\<close>
  (the value of an array read outside the array) or by using a member that a text node does
  not have; or the \<^verbatim>\<open>SyntaxError\<close> that \<^verbatim>\<open>querySelector\<close> raises for a selector it
  cannot parse.
\<close>

datatype cause = OfUndefined | OfTextNode

datatype error = TypeError cause | SyntaxError

datatype completion = Returned | Threw error

text \<open>Running \<open>g\<close> after \<open>r\<close> unless \<open>r\<close> has thrown.\<close>

definition andThen :: "completion \<times> 'a \<Rightarrow> ('a \<Rightarrow> completion \<times> 'a) \<Rightarrow> completion \<times> 'a" where
  "andThen r g = (case fst r of Returned \<Rightarrow> g (snd r) | Threw e \<Rightarrow> r)"

text \<open>
  What \<^verbatim>\<open>querySelector\<close> does with a selector: it returns the first element that matches,
  or \<^verbatim>\<open>null\<close>, or it throws. The selector engine and the document belong to the host, so
  the answer to each selector string is taken as given.
\<close>

datatype 'a queried = Matched 'a | NoMatch | InvalidSelector

text \<open>
  \<^verbatim>\<open>parseInt(s)\<close> with no radix: leading white space is skipped, a sign and a
  \<^verbatim>\<open>0x\<close> prefix are read, and the longest run of digits of the radix is the value, rounded
  to a double; with no digit the result is \<^verbatim>\<open>NaN\<close>. The white space within Latin-1 is
  tab, line feed, vertical tab, form feed, carriage return, space and the no-break space.
\<close>

definition isWhiteSpace :: "char \<Rightarrow> bool" where
  "isWhiteSpace c =
     (c \<in> set [CHR '' '', CHR 0x09, CHR 0x0A, CHR 0x0B, CHR 0x0C, CHR 0x0D, CHR 0xA0])"

definition digitValue :: "char \<Rightarrow> nat option" where
  "digitValue c =
     (let n = of_char c :: nat in
      if 48 \<le> n \<and> n \<le> 57 then Some (n - 48)
      else if 97 \<le> n \<and> n \<le> 102 then Some (n - 87)
      else if 65 \<le> n \<and> n \<le> 70 then Some (n - 55)
      else None)"

definition isDigitOf :: "nat \<Rightarrow> char \<Rightarrow> bool" where
  "isDigitOf radix c = (case digitValue c of None \<Rightarrow> False | Some d \<Rightarrow> d < radix)"

definition digitsValue :: "nat \<Rightarrow> string \<Rightarrow> int" where
  "digitsValue radix ds =
     foldl (\<lambda>acc c. acc * int radix + (case digitValue c of None \<Rightarrow> 0 | Some d \<Rightarrow> int d)) 0 ds"

definition parseInt :: "string \<Rightarrow> number" where
  "parseInt s =
     (let s1 = dropWhile isWhiteSpace s;
          negative = (case s1 of c # _ \<Rightarrow> c = CHR ''-'' | [] \<Rightarrow> False);
          s2 = (case s1 of c # r \<Rightarrow> (if c = CHR ''-'' \<or> c = CHR ''+'' then r else s1) | [] \<Rightarrow> s1);
          hex = (take 2 s2 = ''0x'' \<or> take 2 s2 = ''0X'');
          radix = (if hex then 16 else 10);
          s3 = (if hex then drop 2 s2 else s2);
          ds = takeWhile (isDigitOf radix) s3
      in if ds = [] then NaN
         else toDouble ((if negative then - 1 else 1) * digitsValue radix ds))"

text \<open>\<^verbatim>\<open>s.split(c)\<close> for a one-character separator: the empty string gives one empty piece.\<close>

fun split_at :: "char \<Rightarrow> string \<Rightarrow> string list" where
  "split_at c [] = [[]]"
| "split_at c (x # xs) =
     (if x = c then [] # split_at c xs
      else (case split_at c xs of [] \<Rightarrow> [[x]] | y # ys \<Rightarrow> (x # y) # ys))"

text \<open>
  \<^verbatim>\<open>s.substring(from, to)\<close>: each bound is truncated to \<open>0..length s\<close>
  (\<^verbatim>\<open>NaN\<close> counts as 0, a missing \<open>to\<close> as the length), and the bounds are swapped when
  \<open>from\<close> is the larger.
\<close>

definition clampIndex :: "nat \<Rightarrow> number \<Rightarrow> nat" where
  "clampIndex len n =
     (case n of
        NaN \<Rightarrow> 0
      | Num i \<Rightarrow> (if i < 0 then 0 else min (nat i) len)
      | PosInfinity \<Rightarrow> len
      | NegInfinity \<Rightarrow> 0)"

definition substring :: "string \<Rightarrow> number \<Rightarrow> number option \<Rightarrow> string" where
  "substring s from to =
     (let a = clampIndex (length s) from;
          b = (case to of None \<Rightarrow> length s | Some t \<Rightarrow> clampIndex (length s) t);
          lo = min a b; hi = max a b
      in take (hi - lo) (drop lo s))"

text \<open>
  A \<^verbatim>\<open>URLSearchParams\<close> object is the list of its (name, value) entries in order;
  \<^verbatim>\<open>has\<close> asks for an entry with the name, \<^verbatim>\<open>get\<close> returns the value of the first one.
\<close>

type_synonym searchParams = "(string \<times> string) list"

definition params_has :: "searchParams \<Rightarrow> string \<Rightarrow> bool" where
  "params_has ps k = (map_of ps k \<noteq> None)"

definition params_get :: "searchParams \<Rightarrow> string \<Rightarrow> string option" where
  "params_get ps k = map_of ps k"

text \<open>
  A plain object is the list of its own (key, value) properties in the order the language
  lists them: first the keys that are array indices (the decimal numerals below
  \<^verbatim>\<open>2^32 - 1\<close>), ascending, then the other keys in the order they were added.
  \<^verbatim>\<open>o[k] = v\<close> is \<open>setProp\<close>, \<^verbatim>\<open>delete o[k]\<close> is \<^const>\<open>AList.delete\<close>.
  \<^verbatim>\<open>k in o\<close> also finds the properties every plain object inherits from
  \<^verbatim>\<open>Object.prototype\<close>.
\<close>

definition arrayIndex :: "string \<Rightarrow> nat option" where
  "arrayIndex k =
     (if k \<noteq> [] \<and> list_all (isDigitOf 10) k \<and> (k = ''0'' \<or> take 1 k \<noteq> ''0'')
         \<and> digitsValue 10 k < 4294967295
      then Some (nat (digitsValue 10 k)) else None)"

fun insertIndexed :: "nat \<Rightarrow> string \<Rightarrow> 'v \<Rightarrow> (string \<times> 'v) list \<Rightarrow> (string \<times> 'v) list" where
  "insertIndexed n k v [] = [(k, v)]"
| "insertIndexed n k v (p # ps) =
     (case arrayIndex (fst p) of
        None \<Rightarrow> (k, v) # p # ps
      | Some m \<Rightarrow> if m < n then p # insertIndexed n k v ps else (k, v) # p # ps)"

definition setProp :: "string \<Rightarrow> 'v \<Rightarrow> (string \<times> 'v) list \<Rightarrow> (string \<times> 'v) list" where
  "setProp k v obj =
     (if k \<in> set (map fst obj) then AList.update k v obj
      else (case arrayIndex k of
              None \<Rightarrow> obj @ [(k, v)]
            | Some n \<Rightarrow> insertIndexed n k v obj))"

definition objectPrototypeKeys :: "string list" where
  "objectPrototypeKeys =
     [''constructor'', ''__defineGetter__'', ''__defineSetter__'', ''hasOwnProperty'',
      ''__lookupGetter__'', ''__lookupSetter__'', ''isPrototypeOf'', ''propertyIsEnumerable'',
      ''toString'', ''valueOf'', ''__proto__'', ''toLocaleString'']"

definition js_in :: "string \<Rightarrow> (string \<times> 'v) list \<Rightarrow> bool" where
  "js_in k obj = (k \<in> set (map fst obj) \<or> k \<in> set objectPrototypeKeys)"

datatype 'n jsvalue =
    VUndefined
  | VBool bool
  | VNumber 'n
  | VString string
  | VRecord "(string \<times> string) list"

type_synonym 'n object = "(string \<times> 'n jsvalue) list"

definition getProp :: "'n object \<Rightarrow> string \<Rightarrow> 'n jsvalue" where
  "getProp obj k = (case map_of obj k of None \<Rightarrow> VUndefined | Some v \<Rightarrow> v)"

section \<open>The settings object\<close>

text \<open>The types the interface \<^verbatim>\<open>PDFPlusSettings\<close> declares for its fields.\<close>

datatype fieldType =
    TBoolean
  | TNumber
  | TString
  | TOneOf "string list"
  | TRecordOfHexString

definition HOVER_HIGHLIGHT_ACTIONS :: "(string \<times> string) list" where
  "HOVER_HIGHLIGHT_ACTIONS =
     [(''open'', ''Open backlink''),
      (''preview'', ''Popover preview of backlink'')]"

definition PANE_TYPE :: "(string \<times> string) list" where
  "PANE_TYPE =
     [('''', ''Current tab''),
      (''tab'', ''New tab''),
      (''split'', ''Split right''),
      (''window'', ''New window'')]"

definition COLOR_PALETTE_ACTIONS :: "(string \<times> string) list" where
  "COLOR_PALETTE_ACTIONS =
     [(''copyQuote'', ''Copy as quote''),
      (''copyLink'', ''Copy link to selection''),
      (''copyEmbed'', ''Copy embed of selection'')]"

definition PDFPlusSettings :: "(string \<times> fieldType) list" where
  "PDFPlusSettings =
     [(''alias'', TBoolean),
      (''aliasFormat'', TString),
      (''trimSelectionEmbed'', TBoolean),
      (''noSidebarInEmbed'', TBoolean),
      (''embedUnscrollable'', TBoolean),
      (''zoomInEmbed'', TNumber),
      (''openLinkCleverly'', TBoolean),
      (''dontActivateAfterOpenPDF'', TBoolean),
      (''dontActivateAfterOpenMD'', TBoolean),
      (''highlightDuration'', TNumber),
      (''persistentHighlightsInEmbed'', TBoolean),
      (''highlightBacklinks'', TBoolean),
      (''clickEmbedToOpenLink'', TBoolean),
      (''highlightBacklinksPane'', TBoolean),
      (''colors'', TRecordOfHexString),
      (''defaultColor'', TString),
      (''colorPaletteInToolbar'', TBoolean),
      (''colorPaletteInEmbedToolbar'', TBoolean),
      (''highlightColorSpecifiedOnly'', TBoolean),
      (''doubleClickHighlightToOpenBacklink'', TBoolean),
      (''hoverHighlightAction'', TOneOf (map fst HOVER_HIGHLIGHT_ACTIONS)),
      (''paneTypeForFirstMDLeaf'', TOneOf (map fst PANE_TYPE)),
      (''defaultColorPaletteAction'', TOneOf (map fst COLOR_PALETTE_ACTIONS)),
      (''hoverPDFLinkToOpen'', TBoolean),
      (''ignoreHeightParamInPopoverPreview'', TBoolean),
      (''filterBacklinksByPageDefault'', TBoolean)]"

definition DEFAULT_SETTINGS :: "('n::zero) object" where
  "DEFAULT_SETTINGS =
     [(''alias'', VBool True),
      (''aliasFormat'', VString ''''),
      (''trimSelectionEmbed'', VBool True),
      (''noSidebarInEmbed'', VBool True),
      (''embedUnscrollable'', VBool False),
      (''zoomInEmbed'', VNumber 0),
      (''openLinkCleverly'', VBool True),
      (''dontActivateAfterOpenPDF'', VBool True),
      (''dontActivateAfterOpenMD'', VBool True),
      (''highlightDuration'', VNumber 0),
      (''persistentHighlightsInEmbed'', VBool True),
      (''highlightBacklinks'', VBool True),
      (''clickEmbedToOpenLink'', VBool True),
      (''highlightBacklinksPane'', VBool True),
      (''colors'', VRecord
         [(''Yellow'', ''#ffd000''),
          (''Red'', ''#EA5252''),
          (''Blue'', ''#7b89f4'')]),
      (''defaultColor'', VString ''''),
      (''colorPaletteInToolbar'', VBool True),
      (''colorPaletteInEmbedToolbar'', VBool False),
      (''highlightColorSpecifiedOnly'', VBool False),
      (''doubleClickHighlightToOpenBacklink'', VBool True),
      (''hoverHighlightAction'', VString ''open''),
      (''paneTypeForFirstMDLeaf'', VString ''split''),
      (''defaultColorPaletteAction'', VString ''copyQuote''),
      (''hoverPDFLinkToOpen'', VBool False),
      (''ignoreHeightParamInPopoverPreview'', VBool True),
      (''filterBacklinksByPageDefault'', VBool True)]"

text \<open>A value has a declared type. \<^verbatim>\<open>HexString\<close> is the host's name for \<^verbatim>\<open>string\<close>.\<close>

fun hasType :: "'n jsvalue \<Rightarrow> fieldType \<Rightarrow> bool" where
  "hasType (VBool b) TBoolean = True"
| "hasType (VNumber n) TNumber = True"
| "hasType (VString s) TString = True"
| "hasType (VString s) (TOneOf options) = (s \<in> set options)"
| "hasType (VRecord r) TRecordOfHexString = True"
| "hasType _ _ = False"

definition fieldHasType :: "string \<times> 'n jsvalue \<Rightarrow> string \<times> fieldType \<Rightarrow> bool" where
  "fieldHasType kv kt = (fst kv = fst kt \<and> hasType (snd kv) (snd kt))"

text \<open>
  The keys of the interface whose declared type is \<open>t\<close>
  (\<^verbatim>\<open>KeysOfType<PDFPlusSettings, number>\<close> is \<open>keysOfType TNumber\<close>).
\<close>

definition keysOfType :: "fieldType \<Rightarrow> string list" where
  "keysOfType t = map fst (filter (\<lambda>kt. snd kt = t) PDFPlusSettings)"

section \<open>The settings tab\<close>

text \<open>
  The plugin as the settings tab sees it: the settings object, what has been written to the
  host's storage, the notices shown, how often the style sheet was reloaded, and the values of
  the options of the default-colour dropdown.
\<close>

record 'n plugin =
  settings :: "'n object"
  savedData :: "'n object list"
  notices :: "string list"
  styleLoads :: nat
  defaultColorOptions :: "string list"

text \<open>
  Modelled from the spec: \<^verbatim>\<open>plugin.saveSettings\<close> lives in the plugin's main module, which
  is not part of the source tree. The spec describes the settings as a flat user-settings
  record serialized by the host's storage mechanism; here each call appends the settings
  object, as it is at the call, to the list of what was stored.
\<close>

definition saveSettings :: "'n plugin \<Rightarrow> 'n plugin" where
  "saveSettings p = p\<lparr>savedData := savedData p @ [settings p]\<rparr>"

text \<open>
  Modelled from the spec: \<^verbatim>\<open>plugin.loadStyle\<close> is in the main module too; it reads the
  settings and touches only the style sheet, so only the call is counted.
\<close>

definition loadStyle :: "'n plugin \<Rightarrow> 'n plugin" where
  "loadStyle p = p\<lparr>styleLoads := Suc (styleLoads p)\<rparr>"

text \<open>
  The change handler of \<^verbatim>\<open>addNumberSetting\<close>. The unary plus of \<^verbatim>\<open>+value\<close> is the
  language's conversion of a string to a number, passed in as \<open>toNumber\<close>.
\<close>

definition addNumberSetting_onChange ::
  "(string \<Rightarrow> 'n) \<Rightarrow> string \<Rightarrow> string \<Rightarrow> ('n::zero) plugin \<Rightarrow> 'n plugin" where
  "addNumberSetting_onChange toNumber settingName value p =
     saveSettings
       (p\<lparr>settings :=
            setProp settingName
              (if value = [] then getProp DEFAULT_SETTINGS settingName
               else VNumber (toNumber value))
              (settings p)\<rparr>)"

text \<open>
  One row of the colour list: the variables \<^verbatim>\<open>name\<close>, \<^verbatim>\<open>color\<close>,
  \<^verbatim>\<open>previousColor\<close> and \<^verbatim>\<open>isDefault\<close> that the handlers of
  \<^verbatim>\<open>addColorSetting\<close> close over, and whether the name input carries the class
  \<^verbatim>\<open>error\<close>.
\<close>

record colorRow =
  row_name :: string
  row_color :: string
  row_previousColor :: string
  row_isDefault :: bool
  row_inputError :: bool

definition colorsOf :: "'n object \<Rightarrow> (string \<times> string) list" where
  "colorsOf obj = (case getProp obj ''colors'' of VRecord cs \<Rightarrow> cs | _ \<Rightarrow> [])"

definition addColorSetting :: "string \<Rightarrow> string \<Rightarrow> 'n plugin \<Rightarrow> colorRow" where
  "addColorSetting name color p =
     \<lparr>row_name = name, row_color = color, row_previousColor = color,
      row_isDefault = (getProp (settings p) ''defaultColor'' = VString name),
      row_inputError = False\<rparr>"

text \<open>
  The selector the rename handler hands to \<^verbatim>\<open>querySelector\<close>: the old name goes into
  it as it is, between double quotes.
\<close>

definition optionSelector :: "string \<Rightarrow> string" where
  "optionSelector name =
     ''#pdf-plus-default-color-dropdown > option[value='' @ [CHR 0x22] @ name @ [CHR 0x22] @ '']''"

text \<open>
  The change handler of the name field of a colour row. \<open>querySelector\<close> is the host's
  answer to a selector on the options of the default-colour dropdown: the position of the
  option it finds, none, or a \<^verbatim>\<open>SyntaxError\<close>, which ends the handler after the old key
  has been deleted.
\<close>

definition addColorSetting_onChangeName ::
  "(string \<Rightarrow> string list \<Rightarrow> nat queried) \<Rightarrow> string \<Rightarrow> colorRow \<times> 'n plugin \<Rightarrow>
   completion \<times> colorRow \<times> 'n plugin" where
  "addColorSetting_onChangeName querySelector newName rp =
     (let row = fst rp; p = snd rp; colors = colorsOf (settings p) in
      if js_in newName colors then
        (Returned,
         row\<lparr>row_inputError := True\<rparr>,
         p\<lparr>notices := notices p @ [''This color name is already used.'']\<rparr>)
      else
        let colors1 = AList.delete (row_name row) colors;
            p1 = p\<lparr>settings := setProp ''colors'' (VRecord colors1) (settings p)\<rparr>;
            row1 = row\<lparr>row_inputError := False\<rparr>
        in case querySelector (optionSelector (row_name row)) (defaultColorOptions p1) of
             InvalidSelector \<Rightarrow> (Threw SyntaxError, row1, p1)
           | found \<Rightarrow>
               let options = (case found of
                                Matched i \<Rightarrow> (defaultColorOptions p1)[i := newName]
                              | _ \<Rightarrow> defaultColorOptions p1);
                   colors2 = setProp newName (row_color row) colors1;
                   s1 = setProp ''colors'' (VRecord colors2) (settings p1);
                   s2 = (if row_isDefault row then setProp ''defaultColor'' (VString newName) s1
                         else s1)
               in (Returned,
                   row1\<lparr>row_name := newName\<rparr>,
                   loadStyle (saveSettings (p1\<lparr>settings := s2, defaultColorOptions := options\<rparr>))))"

text \<open>The plugin right after loading the default settings, with the tab displayed.\<close>

definition freshPlugin :: "int plugin" where
  "freshPlugin =
     \<lparr>settings = DEFAULT_SETTINGS, savedData = [], notices = [], styleLoads = 0,
      defaultColorOptions = [] # map fst (colorsOf (DEFAULT_SETTINGS :: int object))\<rparr>"

section \<open>The backlink highlighter: data\<close>

text \<open>
  A link of the metadata cache. \<open>lc_params\<close> holds the entries of
  \<^verbatim>\<open>new URLSearchParams(getSubpathWithoutHash(link.link))\<close>: neither the utility nor the
  host's parser of link texts is part of the source tree, so the parameters a link text
  yields are taken as given with the link.
\<close>

record linkCache =
  lc_link :: string
  lc_params :: searchParams

text \<open>DOM elements that are only held, never inspected, are handles.\<close>

type_synonym element = nat

record selectionBacklinkInfo =
  sourcePath :: string
  linkCache :: linkCache
  pageNumber :: number
  beginIndex :: number
  beginOffset :: number
  endIndex :: number
  endOffset :: number
  colorName :: "string option"
  annotationEls :: "element list option"
  backlinkItemEl :: "element option"

record annotationBacklinkInfo =
  a_sourcePath :: string
  a_linkCache :: linkCache
  a_pageNumber :: number
  a_id :: string
  a_backlinkItemEl :: "element option"
  a_annotationEls :: "element list option"

record pageBacklinks =
  selection :: "selectionBacklinkInfo list"
  annotation :: "annotationBacklinkInfo list"

text \<open>
  \<^verbatim>\<open>backlinks\<close> is an object keyed by the page number; the key of \<^verbatim>\<open>NaN\<close> is the one
  property \<^verbatim>\<open>"NaN"\<close>.
\<close>

type_synonym backlinksMap = "number \<Rightarrow> pageBacklinks option"

text \<open>
  The nodes of a text layer: a text node, or an element with its class list, its
  \<^verbatim>\<open>data-highlight-color\<close> attribute and its children.
\<close>

datatype node =
    TextNode string
  | Element "string list" "string option" "node list"

fun textContent :: "node \<Rightarrow> string" where
  "textContent (TextNode t) = t"
| "textContent (Element cls col ch) = concat (map textContent ch)"

text \<open>Assigning to \<^verbatim>\<open>textContent\<close> replaces the children by one text node, or by none.\<close>

fun setTextContent :: "string \<Rightarrow> node \<Rightarrow> node" where
  "setTextContent t (TextNode u) = TextNode t"
| "setTextContent t (Element cls col ch) = Element cls col (if t = [] then [] else [TextNode t])"

record textLayer =
  textDivs :: "node list"
  textContentItems :: "string list"

text \<open>
  An annotation layer: the ids \<^verbatim>\<open>getAnnotation\<close> knows, what \<^verbatim>\<open>querySelector\<close> on
  the layer's element answers to a selector, and the rectangles \<^verbatim>\<open>highlightAnnotation\<close>
  has put into the layer. The position of a rectangle is a floating-point percentage and is
  left out.
\<close>

record annotationLayer =
  al_annotations :: "string list"
  al_querySelector :: "string \<Rightarrow> element queried"
  al_rects :: "element list"

record pageView =
  pv_textLayer :: "textLayer option"
  pv_annotationLayer :: "annotationLayer option"
  pv_loaded :: bool

text \<open>Handlers registered with the event manager.\<close>

datatype handler =
    TextLayerReady
  | AnnotationLayerReady
  | DomEvent element string

text \<open>
  The highlighter with what it reaches: its own fields, the viewer (\<open>hs_isEmbed\<close>,
  \<open>hs_pagesCount\<close>, the page views of \<^verbatim>\<open>pdfViewer\<close>, which may be missing), the two
  settings it reads, the metadata cache (\<^verbatim>\<open>getBacklinksForFile\<close>: for a file, the source
  paths with their links), the notices shown and the errors logged to the console.
\<close>

record hstate =
  hs_file :: "string option"
  hs_isEmbed :: bool
  hs_pagesCount :: number
  hs_pages :: "pageView list option"
  hs_highlightBacklinks :: bool
  hs_highlightColorSpecifiedOnly :: bool
  hs_manifestName :: string
  hs_metadataCache :: "string \<Rightarrow> (string \<times> linkCache list) list"
  hs_backlinks :: backlinksMap
  hs_highlightedTexts :: "(number \<times> number) list"
  hs_highlightedAnnotations :: "(string \<times> element) list"
  hs_loaded :: bool
  hs_eventManagerLoaded :: bool
  hs_eventManager :: "handler list"
  hs_registeredEvents :: "string list"
  hs_nextElement :: element
  hs_notices :: "string list"
  hs_console :: "error list"

text \<open>\<^verbatim>\<open>this.viewer.pdfViewer?.getPageView(i)\<close>: the page view at index \<open>i\<close>, if any.\<close>

definition getPageView :: "hstate \<Rightarrow> number \<Rightarrow> pageView option" where
  "getPageView s i = (case hs_pages s of None \<Rightarrow> None | Some pages \<Rightarrow> array_get pages i)"

section \<open>setBacklinks\<close>

text \<open>The \<^verbatim>\<open>!\<close> of \<^verbatim>\<open>params.get(k)!\<close>, used after \<^verbatim>\<open>params.has(k)\<close>.\<close>

definition nonNull :: "string option \<Rightarrow> string" where
  "nonNull v = (case v of None \<Rightarrow> [] | Some x \<Rightarrow> x)"

definition entryAt :: "backlinksMap \<Rightarrow> number \<Rightarrow> pageBacklinks" where
  "entryAt bl page = (case bl page of None \<Rightarrow> \<lparr>selection = [], annotation = []\<rparr> | Some e \<Rightarrow> e)"

text \<open>The body of the inner loop of \<^verbatim>\<open>setBacklinks\<close>: one link of one source path.\<close>

definition addBacklink :: "string \<Rightarrow> linkCache \<Rightarrow> backlinksMap \<Rightarrow> backlinksMap" where
  "addBacklink src link bl =
     (let params = lc_params link in
      if params_has params ''page'' \<and> params_has params ''selection'' then
        let page = parseInt (nonNull (params_get params ''page''));
            sel = map parseInt (split_at CHR '','' (nonNull (params_get params ''selection'')));
            color = params_get params ''color''
        in if length sel = 4 then
             bl(page \<mapsto> (entryAt bl page)\<lparr>selection := selection (entryAt bl page) @
               [\<lparr>sourcePath = src, linkCache = link, pageNumber = page,
                 beginIndex = sel ! 0, beginOffset = sel ! 1,
                 endIndex = sel ! 2, endOffset = sel ! 3,
                 colorName = color, annotationEls = None, backlinkItemEl = None\<rparr>]\<rparr>)
           else bl
      else if params_has params ''page'' \<and> params_has params ''annotation'' then
        let page = parseInt (nonNull (params_get params ''page''));
            ann = nonNull (params_get params ''annotation'')
        in bl(page \<mapsto> (entryAt bl page)\<lparr>annotation := annotation (entryAt bl page) @
             [\<lparr>a_sourcePath = src, a_linkCache = link, a_pageNumber = page, a_id = ann,
               a_backlinkItemEl = None, a_annotationEls = None\<rparr>]\<rparr>)
      else bl)"

definition setBacklinks :: "string \<Rightarrow> hstate \<Rightarrow> hstate" where
  "setBacklinks file s =
     s\<lparr>hs_backlinks :=
         fold (\<lambda>entry bl. fold (addBacklink (fst entry)) (snd entry) bl)
           (hs_metadataCache s file) Map.empty\<rparr>"

section \<open>highlightText and clearTextHighlight\<close>

text \<open>Truthiness of an optional string: \<^verbatim>\<open>undefined\<close> and the empty string are falsy.\<close>

definition truthy :: "string option \<Rightarrow> bool" where
  "truthy v = (case v of None \<Rightarrow> False | Some x \<Rightarrow> x \<noteq> [])"

text \<open>
  \<^verbatim>\<open>toLowerCase\<close> within Latin-1: the letters A to Z and the capital letters from
  U+00C0 to U+00DE (the multiplication sign U+00D7 apart) move up by 32.
\<close>

definition toLowerCase :: "string \<Rightarrow> string" where
  "toLowerCase s =
     map (\<lambda>c. let n = of_char c :: nat in
               if (65 \<le> n \<and> n \<le> 90) \<or> (192 \<le> n \<and> n \<le> 222 \<and> n \<noteq> 215)
               then char_of (n + 32) else c) s"

text \<open>The class names in a class string.\<close>

definition classNames :: "string \<Rightarrow> string list" where
  "classNames s = filter (\<lambda>w. w \<noteq> []) (split_at CHR '' '' s)"

text \<open>\<^verbatim>\<open>classList.add\<close>: each name is added unless the element has it.\<close>

definition classList_add :: "string list \<Rightarrow> string list \<Rightarrow> string list" where
  "classList_add names cls = fold (\<lambda>n acc. if n \<in> set acc then acc else acc @ [n]) names cls"

fun appendChild :: "node \<Rightarrow> node \<Rightarrow> node" where
  "appendChild c (Element cls col ch) = Element cls col (ch @ [c])"
| "appendChild c (TextNode t) = TextNode t"

fun childCount :: "node \<Rightarrow> nat" where
  "childCount (Element cls col ch) = length ch"
| "childCount (TextNode t) = 0"

text \<open>
  What \<^verbatim>\<open>onHighlight\<close> is called with: the wrapper span created as the \<open>k\<close>-th child of
  \<^verbatim>\<open>textDivs[index]\<close>, or a whole text div between the first and the last one.
\<close>

datatype highlighted = WrapperIn number nat | WholeDiv number

text \<open>
  What the two local functions of \<^verbatim>\<open>highlightText\<close> work on: \<^verbatim>\<open>this.highlightedTexts\<close>,
  the array \<^verbatim>\<open>textDivs\<close> of the page, and the calls of \<^verbatim>\<open>onHighlight\<close> made so far.
  The one callback the source passes (in \<^verbatim>\<open>_highlightBacklinks\<close>) writes to the backlink and
  registers listeners; it touches neither of the first two.
\<close>

record hlctx =
  ctx_texts :: "(number \<times> number) list"
  ctx_divs :: "node list"
  ctx_calls :: "highlighted list"

definition divideAndWrapText ::
  "number \<Rightarrow> string list \<Rightarrow> string option \<Rightarrow>
   number \<Rightarrow> number \<Rightarrow> number option \<Rightarrow> string option \<Rightarrow> hlctx \<Rightarrow> completion \<times> hlctx" where
  "divideAndWrapText pageNo items color index from to className ctx =
     (let ctx1 = ctx\<lparr>ctx_texts := ctx_texts ctx @ [(pageNo, index)]\<rparr> in
      case array_get (ctx_divs ctx1) index of
        None \<Rightarrow> (Threw (TypeError OfUndefined), ctx1)
      | Some textDiv0 \<Rightarrow>
          let textDiv = (case textDiv0 of
                           TextNode t \<Rightarrow> Element [] None [textDiv0]
                         | Element cls col ch \<Rightarrow> textDiv0);
              ctx2 = ctx1\<lparr>ctx_divs := array_set index textDiv (ctx_divs ctx1)\<rparr>
          in case array_get items index of
               None \<Rightarrow> (Threw (TypeError OfUndefined), ctx2)
             | Some str \<Rightarrow>
                 let text = substring str from to in
                 if truthy className then
                   let wrapper =
                         Element (classNames (nonNull className @ '' appended''))
                           (if truthy color then Some (toLowerCase (nonNull color)) else None)
                           [TextNode text]
                   in (Returned,
                       ctx2\<lparr>ctx_divs := array_set index (appendChild wrapper textDiv) (ctx_divs ctx2),
                            ctx_calls := ctx_calls ctx2 @ [WrapperIn index (childCount textDiv)]\<rparr>)
                 else
                   (Returned,
                    ctx2\<lparr>ctx_divs :=
                           array_set index (appendChild (TextNode text) textDiv) (ctx_divs ctx2)\<rparr>))"

definition divideAndWrapTextStart ::
  "number \<Rightarrow> string list \<Rightarrow> string option \<Rightarrow>
   number \<Rightarrow> number \<Rightarrow> string option \<Rightarrow> hlctx \<Rightarrow> completion \<times> hlctx" where
  "divideAndWrapTextStart pageNo items color index offset className ctx =
     (case array_get (ctx_divs ctx) index of
        None \<Rightarrow> (Threw (TypeError OfUndefined), ctx)
      | Some d \<Rightarrow>
          divideAndWrapText pageNo items color index (Num 0) (Some offset) className
            (ctx\<lparr>ctx_divs := array_set index (setTextContent [] d) (ctx_divs ctx)\<rparr>))"

text \<open>
  The loop over the text divs strictly between the first and the last:
  \<^verbatim>\<open>for (let i = beginIndex + 1; i < endIndex; i++)\<close>.
\<close>

function middleDivs ::
  "number \<Rightarrow> string option \<Rightarrow> number \<Rightarrow> number \<Rightarrow> hlctx \<Rightarrow> completion \<times> hlctx" where
  "middleDivs pageNo color i endIdx ctx =
     (if num_less i endIdx then
        let ctx1 = ctx\<lparr>ctx_texts := ctx_texts ctx @ [(pageNo, i)]\<rparr> in
        case array_get (ctx_divs ctx1) i of
          None \<Rightarrow> (Threw (TypeError OfUndefined), ctx1)
        | Some (TextNode t) \<Rightarrow> (Threw (TypeError OfTextNode), ctx1)
        | Some (Element cls col ch) \<Rightarrow>
            middleDivs pageNo color (num_add i 1) endIdx
              (ctx1\<lparr>ctx_divs :=
                      array_set i
                        (Element
                           (classList_add
                              [''mod-focused'', ''middle'', ''selected'', ''pdf-plus-backlink''] cls)
                           (if truthy color then Some (toLowerCase (nonNull color)) else col)
                           ch)
                        (ctx_divs ctx1),
                    ctx_calls := ctx_calls ctx1 @ [WholeDiv i]\<rparr>)
      else (Returned, ctx))"
  by pat_completeness auto
termination
proof (relation "measure (\<lambda>(pageNo, color, i, endIdx, ctx).
    case i of Num k \<Rightarrow> nat (int (length (ctx_divs ctx)) - k) | _ \<Rightarrow> 0)")
  show "wf (measure (\<lambda>(pageNo, color, i, endIdx, ctx).
    case i of Num k \<Rightarrow> nat (int (length (ctx_divs ctx)) - k) | _ \<Rightarrow> 0))"
    by simp
next
  fix pageNo :: number and color :: "string option" and i endIdx :: number
    and ctx ctx1 :: hlctx and x2 :: node and x21 x22 x23
  assume "num_less i endIdx"
    and c1: "ctx1 = ctx\<lparr>ctx_texts := ctx_texts ctx @ [(pageNo, i)]\<rparr>"
    and g: "array_get (ctx_divs ctx1) i = Some x2"
    and "x2 = Element x21 x22 x23"
  from g obtain k where k: "i = Num k" "0 \<le> k" "k < int (length (ctx_divs ctx1))"
    "k < 4294967295"
    by (cases i) (auto split: if_splits)
  then have "num_add i 1 = Num (k + 1)" by (simp add: toDouble_def)
  with c1 k show "((pageNo, color, num_add i 1, endIdx,
        ctx1\<lparr>ctx_divs :=
               array_set i
                 (Element
                    (classList_add
                       [''mod-focused'', ''middle'', ''selected'', ''pdf-plus-backlink''] x21)
                    (if truthy color then Some (toLowerCase (nonNull color)) else x22)
                    x23)
                 (ctx_divs ctx1),
             ctx_calls := ctx_calls ctx1 @ [WholeDiv i]\<rparr>),
       pageNo, color, i, endIdx, ctx)
      \<in> measure (\<lambda>(pageNo, color, i, endIdx, ctx).
          case i of Num k \<Rightarrow> nat (int (length (ctx_divs ctx)) - k) | _ \<Rightarrow> 0)"
    by simp
qed

text \<open>The statements of \<^verbatim>\<open>highlightText\<close> once the page view and its text layer are at hand.\<close>

definition highlightInLayer ::
  "number \<Rightarrow> string list \<Rightarrow> string option \<Rightarrow>
   number \<Rightarrow> number \<Rightarrow> number \<Rightarrow> number \<Rightarrow> hlctx \<Rightarrow> completion \<times> hlctx" where
  "highlightInLayer pageNo items color beginIdx beginOff endIdx endOff ctx =
     andThen
       (andThen (divideAndWrapTextStart pageNo items color beginIdx beginOff None ctx)
          (\<lambda>c.
             if num_strict_eq beginIdx endIdx then
               divideAndWrapText pageNo items color beginIdx beginOff (Some endOff)
                 (Some ''mod-focused selected pdf-plus-backlink'') c
             else
               andThen
                 (andThen
                    (divideAndWrapText pageNo items color beginIdx beginOff None
                       (Some ''mod-focused begin selected pdf-plus-backlink'') c)
                    (middleDivs pageNo color (num_add beginIdx 1) endIdx))
                 (divideAndWrapTextStart pageNo items color endIdx endOff
                    (Some ''mod-focused endselected pdf-plus-backlink''))))
       (divideAndWrapText pageNo items color endIdx endOff None None)"

text \<open>Writing the array \<^verbatim>\<open>textDivs\<close> of the page view at an index back into the state.\<close>

definition setTextDivs :: "number \<Rightarrow> node list \<Rightarrow> hstate \<Rightarrow> hstate" where
  "setTextDivs pageIndex divs s =
     (case hs_pages s of
        None \<Rightarrow> s
      | Some pages \<Rightarrow>
          (case array_get pages pageIndex of
             None \<Rightarrow> s
           | Some pv \<Rightarrow>
               (case pv_textLayer pv of
                  None \<Rightarrow> s
                | Some layer \<Rightarrow>
                    s\<lparr>hs_pages :=
                        Some (array_set pageIndex
                                (pv\<lparr>pv_textLayer := Some (layer\<lparr>textDivs := divs\<rparr>)\<rparr>) pages)\<rparr>)))"

text \<open>
  \<^verbatim>\<open>highlightText\<close>: the state it leaves and how it completes, and, apart, the elements its
  \<^verbatim>\<open>onHighlight\<close> is called with.
\<close>

definition highlightText_run ::
  "number \<Rightarrow> number \<Rightarrow> number \<Rightarrow> number \<Rightarrow> number \<Rightarrow> string option \<Rightarrow> hstate \<Rightarrow>
   (completion \<times> hlctx) option" where
  "highlightText_run pageNo beginIdx beginOff endIdx endOff color s =
     (if \<not> (num_less pageNo (Num 1) \<or> num_less (hs_pagesCount s) pageNo) then
        case getPageView s (num_add pageNo (- 1)) of
          None \<Rightarrow> None
        | Some pv \<Rightarrow>
            (case pv_textLayer pv of
               None \<Rightarrow> None
             | Some layer \<Rightarrow>
                 if pv_loaded pv then
                   Some (highlightInLayer pageNo (textContentItems layer) color
                           beginIdx beginOff endIdx endOff
                           \<lparr>ctx_texts = hs_highlightedTexts s, ctx_divs = textDivs layer,
                            ctx_calls = []\<rparr>)
                 else None)
      else None)"

definition highlightText ::
  "number \<Rightarrow> number \<Rightarrow> number \<Rightarrow> number \<Rightarrow> number \<Rightarrow> string option \<Rightarrow> hstate \<Rightarrow>
   completion \<times> hstate" where
  "highlightText pageNo beginIdx beginOff endIdx endOff color s =
     (case highlightText_run pageNo beginIdx beginOff endIdx endOff color s of
        None \<Rightarrow> (Returned, s)
      | Some r \<Rightarrow>
          (fst r,
           setTextDivs (num_add pageNo (- 1)) (ctx_divs (snd r))
             (s\<lparr>hs_highlightedTexts := ctx_texts (snd r)\<rparr>)))"

definition highlightText_onHighlight ::
  "number \<Rightarrow> number \<Rightarrow> number \<Rightarrow> number \<Rightarrow> number \<Rightarrow> string option \<Rightarrow> hstate \<Rightarrow>
   highlighted list" where
  "highlightText_onHighlight pageNo beginIdx beginOff endIdx endOff color s =
     (case highlightText_run pageNo beginIdx beginOff endIdx endOff color s of
        None \<Rightarrow> []
      | Some r \<Rightarrow> ctx_calls (snd r))"

text \<open>
  \<^verbatim>\<open>this.backlinks[page]?.selection.forEach((backlink) => { backlink.annotationEls = null })\<close>
\<close>

definition forgetAnnotationEls :: "number \<Rightarrow> backlinksMap \<Rightarrow> backlinksMap" where
  "forgetAnnotationEls page bl =
     (case bl page of
        None \<Rightarrow> bl
      | Some e \<Rightarrow> bl(page \<mapsto> e\<lparr>selection := map (\<lambda>b. b\<lparr>annotationEls := None\<rparr>) (selection e)\<rparr>))"

text \<open>
  How the loop of \<^verbatim>\<open>clearTextHighlight\<close> ends: it runs to the end of the list, it leaves
  the function through the \<^verbatim>\<open>return\<close> in its body, or it throws.
\<close>

datatype loopEnd = Finished | EarlyReturn | Raised error

fun clearTextHighlight_loop :: "(number \<times> number) list \<Rightarrow> hstate \<Rightarrow> loopEnd \<times> hstate" where
  "clearTextHighlight_loop [] s = (Finished, s)"
| "clearTextHighlight_loop ((page, index) # rest) s =
     (case getPageView s (num_add page (- 1)) of
        None \<Rightarrow> (EarlyReturn, s)
      | Some pv \<Rightarrow>
          (case pv_textLayer pv of
             None \<Rightarrow> (EarlyReturn, s)
           | Some layer \<Rightarrow>
               (case array_get (textDivs layer) index of
                  None \<Rightarrow> (Raised (TypeError OfUndefined), s)
                | Some textDiv \<Rightarrow>
                    (case array_get (textContentItems layer) index of
                       None \<Rightarrow> (Raised (TypeError OfUndefined), s)
                     | Some str \<Rightarrow>
                         (case setTextContent str textDiv of
                            TextNode t \<Rightarrow>
                              (Raised (TypeError OfTextNode),
                               setTextDivs (num_add page (- 1))
                                 (array_set index (TextNode t) (textDivs layer)) s)
                          | Element cls col ch \<Rightarrow>
                              clearTextHighlight_loop rest
                                ((setTextDivs (num_add page (- 1))
                                    (array_set index
                                       (Element
                                          (if ''textLayerNode'' \<in> set cls
                                           then [''textLayerNode''] else [])
                                          col ch)
                                       (textDivs layer)) s)
                                 \<lparr>hs_backlinks := forgetAnnotationEls page (hs_backlinks s)\<rparr>))))))"

definition clearTextHighlight :: "hstate \<Rightarrow> completion \<times> hstate" where
  "clearTextHighlight s =
     (case clearTextHighlight_loop (hs_highlightedTexts s) s of
        (Finished, s') \<Rightarrow> (Returned, s'\<lparr>hs_highlightedTexts := []\<rparr>)
      | (EarlyReturn, s') \<Rightarrow> (Returned, s')
      | (Raised e, s') \<Rightarrow> (Threw e, s'))"

section \<open>Annotation highlights\<close>

definition highlightAnnotation :: "number \<Rightarrow> string \<Rightarrow> hstate \<Rightarrow> hstate" where
  "highlightAnnotation pageNo ident s =
     (if \<not> (num_less pageNo (Num 1) \<or> num_less (hs_pagesCount s) pageNo) then
        case getPageView s (num_add pageNo (- 1)) of
          None \<Rightarrow> s
        | Some pv \<Rightarrow>
            (case pv_annotationLayer pv of
               None \<Rightarrow> s
             | Some al \<Rightarrow>
                 if pv_loaded pv \<and> ident \<in> set (al_annotations al) then
                   s\<lparr>hs_pages :=
                       map_option
                         (array_set (num_add pageNo (- 1))
                            (pv\<lparr>pv_annotationLayer :=
                                  Some (al\<lparr>al_rects := al_rects al @ [hs_nextElement s]\<rparr>)\<rparr>))
                         (hs_pages s),
                     hs_highlightedAnnotations :=
                       AList.update ident (hs_nextElement s) (hs_highlightedAnnotations s),
                     hs_nextElement := Suc (hs_nextElement s)\<rparr>
                 else s)
      else s)"

text \<open>\<^verbatim>\<open>el.detach()\<close>: the element leaves the layer it is in.\<close>

definition detach :: "element \<Rightarrow> pageView list \<Rightarrow> pageView list" where
  "detach el pages =
     map (\<lambda>pv. pv\<lparr>pv_annotationLayer :=
                    map_option (\<lambda>al. al\<lparr>al_rects := removeAll el (al_rects al)\<rparr>)
                      (pv_annotationLayer pv)\<rparr>)
       pages"

definition clearAnnotationHighlight :: "string \<Rightarrow> hstate \<Rightarrow> hstate" where
  "clearAnnotationHighlight ident s =
     (case map_of (hs_highlightedAnnotations s) ident of
        None \<Rightarrow> s
      | Some el \<Rightarrow>
          s\<lparr>hs_pages := map_option (detach el) (hs_pages s),
            hs_highlightedAnnotations := AList.delete ident (hs_highlightedAnnotations s)\<rparr>)"

text \<open>
  \<^verbatim>\<open>processAnnotation\<close> changes nothing itself; the result is how it completes and the
  element its callback is called with, if it is called. The id goes into the selector as it
  is, between double quotes.
\<close>

definition annotationSelector :: "string \<Rightarrow> string" where
  "annotationSelector ident = ''[data-annotation-id='' @ [CHR 0x22] @ ident @ [CHR 0x22] @ '']''"

definition processAnnotation :: "number \<Rightarrow> string \<Rightarrow> hstate \<Rightarrow> completion \<times> element option" where
  "processAnnotation pageNo ident s =
     (if \<not> (num_less pageNo (Num 1) \<or> num_less (hs_pagesCount s) pageNo) then
        case getPageView s (num_add pageNo (- 1)) of
          None \<Rightarrow> (Returned, None)
        | Some pv \<Rightarrow>
            (case pv_annotationLayer pv of
               None \<Rightarrow> (Returned, None)
             | Some al \<Rightarrow>
                 if pv_loaded pv then
                   (case al_querySelector al (annotationSelector ident) of
                      Matched el \<Rightarrow> (Returned, Some el)
                    | NoMatch \<Rightarrow> (Returned, None)
                    | InvalidSelector \<Rightarrow> (Threw SyntaxError, None))
                 else (Returned, None))
      else (Returned, None))"

section \<open>The highlighting routine and the lifecycle hooks\<close>

text \<open>
  Modelled from the spec: \<^verbatim>\<open>onTextLayerReady\<close> and \<^verbatim>\<open>onAnnotationLayerReady\<close> belong to
  the utilities module, which is not part of the source tree. The spec has the plugin register
  event handlers through the host's component and lifecycle primitives, and the comment at the
  call says that a callback is registered for when the layer of a page is ready; so each call
  adds its callback to the handlers of the event manager it is given.
\<close>

definition onTextLayerReady :: "hstate \<Rightarrow> hstate" where
  "onTextLayerReady s = s\<lparr>hs_eventManager := hs_eventManager s @ [TextLayerReady]\<rparr>"

definition onAnnotationLayerReady :: "hstate \<Rightarrow> hstate" where
  "onAnnotationLayerReady s = s\<lparr>hs_eventManager := hs_eventManager s @ [AnnotationLayerReady]\<rparr>"

text \<open>
  \<^verbatim>\<open>eventManager.unload()\<close>, \<^verbatim>\<open>removeChild\<close> and \<^verbatim>\<open>addChild\<close>: the handlers of the
  event manager are dropped, and it is loaded again only if the highlighter is.
\<close>

definition reloadEventManager :: "hstate \<Rightarrow> hstate" where
  "reloadEventManager s = s\<lparr>hs_eventManager := [], hs_eventManagerLoaded := hs_loaded s\<rparr>"

text \<open>
  \<^verbatim>\<open>_highlightBacklinks\<close> (a name cannot begin with an underscore here). The bodies of
  the two callbacks it registers run when a layer is ready, not as part of its own run.
\<close>

definition highlightBacklinks_inner :: "hstate \<Rightarrow> completion \<times> hstate" where
  "highlightBacklinks_inner s =
     (case hs_file s of
        None \<Rightarrow> (Returned, s)
      | Some file \<Rightarrow>
          if hs_isEmbed s then (Returned, s)
          else if \<not> hs_highlightBacklinks s then (Returned, s)
          else
            andThen (clearTextHighlight (setBacklinks file s))
              (\<lambda>s1. (Returned, onAnnotationLayerReady (onTextLayerReady (reloadEventManager s1)))))"

definition failureNotice :: "hstate \<Rightarrow> string" where
  "failureNotice s = hs_manifestName s @ '': Failed to highlight backlinks. Reopen the file to retry.''"

definition highlightBacklinks :: "hstate \<Rightarrow> completion \<times> hstate" where
  "highlightBacklinks s =
     (case highlightBacklinks_inner s of
        (Returned, s') \<Rightarrow> (Returned, s')
      | (Threw e, s') \<Rightarrow>
          (Returned,
           s'\<lparr>hs_notices := hs_notices s' @ [failureNotice s'],
              hs_console := hs_console s' @ [e]\<rparr>))"

text \<open>The listener that \<^verbatim>\<open>onload\<close> registers for the event \<^verbatim>\<open>resolved\<close> of the metadata cache.\<close>

definition onResolved :: "hstate \<Rightarrow> completion \<times> hstate" where
  "onResolved s = highlightBacklinks s"

definition onload :: "hstate \<Rightarrow> completion \<times> hstate" where
  "onload s =
     (if \<not> hs_isEmbed s then
        andThen (highlightBacklinks s)
          (\<lambda>s1. (Returned, s1\<lparr>hs_registeredEvents := hs_registeredEvents s1 @ [''resolved'']\<rparr>))
      else (Returned, s))"

definition onunload :: "hstate \<Rightarrow> completion \<times> hstate" where
  "onunload s =
     andThen (clearTextHighlight s)
       (\<lambda>s1. (Returned, fold clearAnnotationHighlight (map fst (hs_highlightedAnnotations s1)) s1))"

section \<open>Notions used to state the properties\<close>


definition linkPage :: "linkCache \<Rightarrow> number" where
  "linkPage l = parseInt (nonNull (params_get (lc_params l) ''page''))"

definition selectionParts :: "linkCache \<Rightarrow> string list" where
  "selectionParts l = split_at CHR '','' (nonNull (params_get (lc_params l) ''selection''))"



definition selectionInfoOf :: "string \<times> linkCache \<Rightarrow> selectionBacklinkInfo" where
  "selectionInfoOf sl =
     \<lparr>sourcePath = fst sl, linkCache = snd sl, pageNumber = linkPage (snd sl),
      beginIndex = parseInt (selectionParts (snd sl) ! 0),
      beginOffset = parseInt (selectionParts (snd sl) ! 1),
      endIndex = parseInt (selectionParts (snd sl) ! 2),
      endOffset = parseInt (selectionParts (snd sl) ! 3),
      colorName = params_get (lc_params (snd sl)) ''color'',
      annotationEls = None, backlinkItemEl = None\<rparr>"




text \<open>
  The tests the three highlighting operations make before they touch a page: the page number
  lies between 1 and the page count, the page view exists, it has the layer, and it is
  loaded.
\<close>

definition textLayerReady :: "hstate \<Rightarrow> number \<Rightarrow> bool" where
  "textLayerReady s pageNo =
     (\<not> (num_less pageNo (Num 1) \<or> num_less (hs_pagesCount s) pageNo)
      \<and> (case getPageView s (num_add pageNo (- 1)) of
            None \<Rightarrow> False
          | Some pv \<Rightarrow> pv_textLayer pv \<noteq> None \<and> pv_loaded pv))"

definition annotationLayerReady :: "hstate \<Rightarrow> number \<Rightarrow> bool" where
  "annotationLayerReady s pageNo =
     (\<not> (num_less pageNo (Num 1) \<or> num_less (hs_pagesCount s) pageNo)
      \<and> (case getPageView s (num_add pageNo (- 1)) of
            None \<Rightarrow> False
          | Some pv \<Rightarrow> pv_annotationLayer pv \<noteq> None \<and> pv_loaded pv))"

section \<open>Concrete inputs\<close>

text \<open>
  A PDF of two pages whose first page is rendered: two text divs and one annotation. The
  second page has no layers yet.
\<close>

definition page_rendered :: pageView where
  "page_rendered =
     \<lparr>pv_textLayer = Some
        \<lparr>textDivs = [Element [''textLayerNode''] None [TextNode ''Hello ''],
                     Element [''textLayerNode''] None [TextNode ''world'']],
         textContentItems = [''Hello '', ''world'']\<rparr>,
      pv_annotationLayer = Some
        \<lparr>al_annotations = [''12R''],
         al_querySelector = (\<lambda>sel. if sel = annotationSelector ''12R'' then Matched 7 else NoMatch),
         al_rects = []\<rparr>,
      pv_loaded = True\<rparr>"

definition page_far_away :: pageView where
  "page_far_away = \<lparr>pv_textLayer = None, pv_annotationLayer = None, pv_loaded = False\<rparr>"

definition state_opened :: hstate where
  "state_opened =
     \<lparr>hs_file = Some ''doc.pdf'', hs_isEmbed = False, hs_pagesCount = Num 2,
      hs_pages = Some [page_rendered, page_far_away],
      hs_highlightBacklinks = True, hs_highlightColorSpecifiedOnly = False,
      hs_manifestName = ''PDF++'',
      hs_metadataCache = (\<lambda>file. []),
      hs_backlinks = Map.empty,
      hs_highlightedTexts = [], hs_highlightedAnnotations = [],
      hs_loaded = True, hs_eventManagerLoaded = True, hs_eventManager = [],
      hs_registeredEvents = [], hs_nextElement = 100,
      hs_notices = [], hs_console = []\<rparr>"

text \<open>
  Links of a note to the PDF: \<^verbatim>\<open>doc.pdf#page=1&selection=0,2,1,3&color=Red\<close>,
  \<^verbatim>\<open>doc.pdf#page=1&annotation=12R\<close>, and one whose \<^verbatim>\<open>selection\<close> has two values only,
  \<^verbatim>\<open>doc.pdf#page=1&selection=1,2&annotation=5\<close>.
\<close>

definition link_selection :: linkCache where
  "link_selection =
     \<lparr>lc_link = ''doc.pdf#page=1&selection=0,2,1,3&color=Red'',
      lc_params = [(''page'', ''1''), (''selection'', ''0,2,1,3''), (''color'', ''Red'')]\<rparr>"



definition state_with_links :: "linkCache list \<Rightarrow> hstate" where
  "state_with_links links = state_opened\<lparr>hs_metadataCache := (\<lambda>file. [(''note.md'', links)])\<rparr>"

text \<open>
  The backlink descriptors of a map: every entry without the DOM elements
  (\<^verbatim>\<open>annotationEls\<close>, \<^verbatim>\<open>backlinkItemEl\<close>) that are filled in once a layer is drawn.
\<close>

definition withoutElements :: "backlinksMap \<Rightarrow> backlinksMap" where
  "withoutElements bl =
     (\<lambda>p. map_option
        (\<lambda>e. \<lparr>selection = map (\<lambda>b. b\<lparr>annotationEls := None, backlinkItemEl := None\<rparr>) (selection e),
              annotation = map (\<lambda>a. a\<lparr>a_annotationEls := None, a_backlinkItemEl := None\<rparr>)
                             (annotation e)\<rparr>)
        (bl p))"

text \<open>
  The opened PDF after the last link to it was removed from the note and highlighting was
  switched off in the settings: the map still holds the entry of the link, the cache holds
  no link.
\<close>

definition state_stale :: hstate where
  "state_stale =
     state_opened
       \<lparr>hs_highlightBacklinks := False,
        hs_backlinks := Map.empty(Num 1 \<mapsto>
          \<lparr>selection = [selectionInfoOf (''note.md'', link_selection)], annotation = []\<rparr>)\<rparr>"

text \<open>
  Both pages rendered; then the first characters of the first text div of page 1 and of page 2
  are highlighted, and an annotation of page 1 is highlighted; then page 1 moves far away from
  the viewport and the viewer drops its layers.
\<close>

definition state_both_rendered :: hstate where
  "state_both_rendered = state_opened\<lparr>hs_pages := Some [page_rendered, page_rendered]\<rparr>"

definition state_both_highlighted :: hstate where
  "state_both_highlighted =
     highlightAnnotation (Num 1) ''12R''
       (snd (highlightText (Num 2) (Num 0) (Num 0) (Num 0) (Num 2) None
          (snd (highlightText (Num 1) (Num 0) (Num 0) (Num 0) (Num 2) None
             state_both_rendered))))"

definition state_page1_away :: hstate where
  "state_page1_away =
     state_both_highlighted
       \<lparr>hs_pages := map_option (array_set (Num 0) page_far_away) (hs_pages state_both_highlighted)\<rparr>"

text \<open>The opened PDF with a recorded highlight whose index lies outside the page's text divs.\<close>

definition state_bad_record :: hstate where
  "state_bad_record = state_opened\<lparr>hs_highlightedTexts := [(Num 1, Num 5)]\<rparr>"

text \<open>
  \<^verbatim>\<open>textDivs[index]\<close> and \<^verbatim>\<open>textContentItems[index].str\<close> of the page with a page
  number, as \<^verbatim>\<open>clearTextHighlight\<close> reaches them; \<open>None\<close> when the page view, its text
  layer or the array element is missing.
\<close>

definition divAt :: "hstate \<Rightarrow> number \<Rightarrow> number \<Rightarrow> node option" where
  "divAt s page index =
     (case getPageView s (num_add page (- 1)) of
        None \<Rightarrow> None
      | Some pv \<Rightarrow>
          (case pv_textLayer pv of
             None \<Rightarrow> None
           | Some layer \<Rightarrow> array_get (textDivs layer) index))"

definition itemAt :: "hstate \<Rightarrow> number \<Rightarrow> number \<Rightarrow> string option" where
  "itemAt s page index =
     (case getPageView s (num_add page (- 1)) of
        None \<Rightarrow> None
      | Some pv \<Rightarrow>
          (case pv_textLayer pv of
             None \<Rightarrow> None
           | Some layer \<Rightarrow> array_get (textContentItems layer) index))"

fun isElement :: "node \<Rightarrow> bool" where
  "isElement (Element cls col ch) = True"
| "isElement (TextNode t) = False"

text \<open>
  A record of \<^verbatim>\<open>highlightedTexts\<close> is sound when it names an element among the text divs
  of a page that has its text content item. It is restored when that div is as the text layer
  draws it: its only child is the text node with the string of the item (no child for the
  empty string), so that its text content is that string and no highlight span is left in it,
  and its class is \<^verbatim>\<open>textLayerNode\<close> or none.
\<close>

definition recordOk :: "hstate \<Rightarrow> number \<times> number \<Rightarrow> bool" where
  "recordOk s r =
     (case divAt s (fst r) (snd r) of
        None \<Rightarrow> False
      | Some d \<Rightarrow> isElement d \<and> itemAt s (fst r) (snd r) \<noteq> None)"

definition restored :: "hstate \<Rightarrow> number \<times> number \<Rightarrow> bool" where
  "restored s r =
     (case divAt s (fst r) (snd r) of
        Some (Element cls col ch) \<Rightarrow>
          (case itemAt s (fst r) (snd r) of
             None \<Rightarrow> False
           | Some str \<Rightarrow>
               ch = (if str = [] then [] else [TextNode str])
               \<and> textContent (Element cls col ch) = str
               \<and> (cls = [] \<or> cls = [''textLayerNode'']))
      | _ \<Rightarrow> False)"

definition recorded_ok :: "hstate \<Rightarrow> bool" where
  "recorded_ok s = list_all (recordOk s) (hs_highlightedTexts s)"

text \<open>Every text div of every text layer has its text content item.\<close>

definition layers_aligned :: "hstate \<Rightarrow> bool" where
  "layers_aligned s =
     (case hs_pages s of
        None \<Rightarrow> True
      | Some pages \<Rightarrow>
          list_all
            (\<lambda>pv. case pv_textLayer pv of
                     None \<Rightarrow> True
                   | Some layer \<Rightarrow> length (textDivs layer) \<le> length (textContentItems layer))
            pages)"

text \<open>
  The opened PDF after \<^verbatim>\<open>highlightText(1, 0, 0, 5, 0)\<close>, which is what the link
  \<^verbatim>\<open>doc.pdf#page=1&selection=0,0,5,0\<close> asks for, on a page of two text divs.
\<close>

definition state_after_long_selection :: hstate where
  "state_after_long_selection =
     snd (highlightText (Num 1) (Num 0) (Num 0) (Num 5) (Num 0) None state_opened)"

text \<open>
  How the local functions of \<^verbatim>\<open>highlightText\<close> change what they work on when they return:
  the array keeps its length, an element stays an element, and the records added name the
  page and an element of the array. (A notion of the proofs below.)
\<close>

definition grows :: "number \<Rightarrow> hlctx \<Rightarrow> hlctx \<Rightarrow> bool" where
  "grows p ctx ctx' =
     (length (ctx_divs ctx') = length (ctx_divs ctx)
      \<and> (\<forall>j < length (ctx_divs ctx). isElement (ctx_divs ctx ! j) \<longrightarrow> isElement (ctx_divs ctx' ! j))
      \<and> (\<exists>new. ctx_texts ctx' = ctx_texts ctx @ new
             \<and> (\<forall>r \<in> set new. fst r = p
                   \<and> (case array_get (ctx_divs ctx') (snd r) of
                        None \<Rightarrow> False
                      | Some d \<Rightarrow> isElement d))))"

text \<open>
  The opened PDF after \<^verbatim>\<open>highlightText(1, 0, 2, 1, 3, "Red")\<close>, the highlight of the link
  \<^verbatim>\<open>doc.pdf#page=1&selection=0,2,1,3&color=Red\<close>.
\<close>

definition state_after_selection :: hstate where
  "state_after_selection =
     snd (highlightText (Num 1) (Num 0) (Num 2) (Num 1) (Num 3) (Some ''Red'') state_opened)"

section \<open>Properties of the settings object and the settings tab\<close>

text \<open>
  C7. \<^verbatim>\<open>DEFAULT_SETTINGS\<close> has exactly the fields the interface \<^verbatim>\<open>PDFPlusSettings\<close>
  declares, each once and in the order of the declaration, and the value of every field has
  the declared type: a boolean for a toggle, a number for a numeric option, a string (one of
  the listed options where the type is a union of keys) for a string option, and a record from
  strings to colour strings for \<^verbatim>\<open>colors\<close>.
\<close>

theorem DEFAULT_SETTINGS_shape:
  "map fst (DEFAULT_SETTINGS :: ('n::zero) object) = map fst PDFPlusSettings
   \<and> distinct (map fst PDFPlusSettings)
   \<and> list_all2 fieldHasType (DEFAULT_SETTINGS :: 'n object) PDFPlusSettings"
  by (simp add: DEFAULT_SETTINGS_def PDFPlusSettings_def fieldHasType_def
      HOVER_HIGHLIGHT_ACTIONS_def PANE_TYPE_def COLOR_PALETTE_ACTIONS_def)

lemma map_of_insertIndexed:
  "k \<notin> set (map fst obj) \<Longrightarrow> map_of (insertIndexed n k v obj) = (map_of obj)(k \<mapsto> v)"
proof (induction obj)
  case Nil
  show ?case by simp
next
  case (Cons p ps)
  then have k: "k \<noteq> fst p" and ih: "map_of (insertIndexed n k v ps) = (map_of ps)(k \<mapsto> v)"
    by auto
  show ?case
    using k ih by (cases p) (auto simp: fun_upd_twist split: option.splits)
qed

text \<open>Assigning to a property sets that property and no other, whatever the order of the keys.\<close>

lemma map_of_setProp: "map_of (setProp k v obj) = (map_of obj)(k \<mapsto> v)"
proof (cases "k \<in> set (map fst obj)")
  case True
  then show ?thesis by (simp add: setProp_def update_conv')
next
  case False
  then have "map_of obj k = None" by (simp add: map_of_eq_None_iff)
  with False show ?thesis
    by (auto simp: setProp_def map_of_insertIndexed map_add_def fun_eq_iff
        split: option.splits)
qed

lemma getProp_update:
  "getProp (setProp k v obj) k' = (if k' = k then v else getProp obj k')"
  by (simp add: getProp_def map_of_setProp)

lemma keysOfType_TNumber: "keysOfType TNumber = [''zoomInEmbed'', ''highlightDuration'']"
  by (simp add: keysOfType_def PDFPlusSettings_def)

lemma default_of_number_key:
  assumes "k \<in> set (keysOfType TNumber)"
  shows "getProp (DEFAULT_SETTINGS :: ('n::zero) object) k = VNumber 0"
proof -
  from assms have "k = ''zoomInEmbed'' \<or> k = ''highlightDuration''"
    by (simp add: keysOfType_TNumber)
  then show ?thesis
  proof
    assume "k = ''zoomInEmbed''"
    then show ?thesis by (simp add: DEFAULT_SETTINGS_def getProp_def)
  next
    assume "k = ''highlightDuration''"
    then show ?thesis by (simp add: DEFAULT_SETTINGS_def getProp_def)
  qed
qed

text \<open>
  C8. In the change handler of \<^verbatim>\<open>addNumberSetting\<close>, for every input string: the empty
  string sets the setting to its value in \<^verbatim>\<open>DEFAULT_SETTINGS\<close>, every other string sets it
  to the numeric conversion of the string; no other setting changes, and in both cases the
  settings are saved afterwards, with the new value in them.
\<close>

theorem addNumberSetting_onChange_sets_and_saves:
  fixes p :: "('n::zero) plugin"
  shows "getProp (settings (addNumberSetting_onChange toNumber settingName value p)) k
          = (if k = settingName
             then (if value = [] then getProp DEFAULT_SETTINGS settingName
                   else VNumber (toNumber value))
             else getProp (settings p) k)
       \<and> savedData (addNumberSetting_onChange toNumber settingName value p)
          = savedData p @ [settings (addNumberSetting_onChange toNumber settingName value p)]"
  by (simp add: addNumberSetting_onChange_def saveSettings_def getProp_update)

lemma rename_collision_changes_nothing:
  assumes "js_in newName (colorsOf (settings p))"
  shows "addColorSetting_onChangeName querySelector newName (row, p)
           = (Returned, row\<lparr>row_inputError := True\<rparr>,
              p\<lparr>notices := notices p @ [''This color name is already used.'']\<rparr>)"
  using assms by (simp add: addColorSetting_onChangeName_def Let_def)

lemma rename_to_unused_name:
  assumes "\<not> js_in newName (colorsOf (settings p))"
    and "querySelector (optionSelector (row_name row)) (defaultColorOptions p) \<noteq> InvalidSelector"
    and "p' = snd (snd (addColorSetting_onChangeName querySelector newName (row, p)))"
  shows "fst (addColorSetting_onChangeName querySelector newName (row, p)) = Returned"
    and "map_of (colorsOf (settings p')) k
           = (if k = newName then Some (row_color row)
              else if k = row_name row then None
              else map_of (colorsOf (settings p)) k)"
    and "getProp (settings p') ''defaultColor''
           = (if row_isDefault row then VString newName
              else getProp (settings p) ''defaultColor'')"
    and "savedData p' = savedData p @ [settings p']"
  using assms
  by (cases "querySelector (optionSelector (row_name row)) (defaultColorOptions p)";
      simp add: addColorSetting_onChangeName_def Let_def loadStyle_def saveSettings_def
        colorsOf_def getProp_update map_of_setProp delete_conv')+

text \<open>
  When the selector with the old name in it cannot be parsed, the handler ends by the
  \<^verbatim>\<open>SyntaxError\<close> after it has deleted the old key: the colour is then under neither
  name, and nothing is saved.
\<close>

lemma rename_with_unparsable_old_name:
  assumes "\<not> js_in newName (colorsOf (settings p))"
    and "querySelector (optionSelector (row_name row)) (defaultColorOptions p) = InvalidSelector"
    and "p' = snd (snd (addColorSetting_onChangeName querySelector newName (row, p)))"
  shows "fst (addColorSetting_onChangeName querySelector newName (row, p)) = Threw SyntaxError"
    and "map_of (colorsOf (settings p')) k
           = (if k = row_name row then None else map_of (colorsOf (settings p)) k)"
    and "savedData p' = savedData p"
  using assms
  by (simp_all add: addColorSetting_onChangeName_def Let_def colorsOf_def getProp_update
      delete_conv')

text \<open>
  C9, at a failing input. With the default colours, renaming \<^verbatim>\<open>Red\<close> to
  \<^verbatim>\<open>toString\<close>: the new name is not a key of the colours record, yet
  \<^verbatim>\<open>newName in colors\<close> holds (every object inherits \<^verbatim>\<open>toString\<close>), so the handler shows
  the notice, marks the input and returns; the colours, the default colour and the stored
  settings stay as they were and the colour keeps its old name.
\<close>

theorem rename_to_inherited_property_name:
  "''toString'' \<notin> set (map fst (colorsOf (settings freshPlugin)))
   \<and> addColorSetting_onChangeName querySelector ''toString''
        (addColorSetting ''Red'' ''#EA5252'' freshPlugin, freshPlugin)
     = (Returned,
        (addColorSetting ''Red'' ''#EA5252'' freshPlugin)\<lparr>row_inputError := True\<rparr>,
        freshPlugin\<lparr>notices := [''This color name is already used.'']\<rparr>)"
  by (simp add: addColorSetting_onChangeName_def Let_def freshPlugin_def colorsOf_def
      getProp_def DEFAULT_SETTINGS_def js_in_def objectPrototypeKeys_def)

section \<open>Properties of setBacklinks\<close>















section \<open>Properties of the highlighting routine\<close>

lemma setTextDivs_frame:
  "setTextDivs i divs s = s\<lparr>hs_pages := hs_pages (setTextDivs i divs s)\<rparr>"
  by (simp add: setTextDivs_def split: option.splits)

lemma setTextDivs_fields:
  "hs_backlinks (setTextDivs i divs s) = hs_backlinks s"
  "hs_highlightedTexts (setTextDivs i divs s) = hs_highlightedTexts s"
  "hs_highlightedAnnotations (setTextDivs i divs s) = hs_highlightedAnnotations s"
  "hs_notices (setTextDivs i divs s) = hs_notices s"
  "hs_console (setTextDivs i divs s) = hs_console s"
  "hs_manifestName (setTextDivs i divs s) = hs_manifestName s"
  "hs_registeredEvents (setTextDivs i divs s) = hs_registeredEvents s"
  "hs_eventManager (setTextDivs i divs s) = hs_eventManager s"
  "hs_loaded (setTextDivs i divs s) = hs_loaded s"
  by (simp_all add: setTextDivs_def split: option.splits)

text \<open>The loop of \<^verbatim>\<open>clearTextHighlight\<close> writes to the page views and to the backlinks only.\<close>

lemma clearTextHighlight_loop_frame:
  "snd (clearTextHighlight_loop xs s)
     = s\<lparr>hs_pages := hs_pages (snd (clearTextHighlight_loop xs s)),
          hs_backlinks := hs_backlinks (snd (clearTextHighlight_loop xs s))\<rparr>"
proof (induction xs s rule: clearTextHighlight_loop.induct)
  case (1 s)
  show ?case by simp
next
  case (2 page index rest s)
  show ?case
  proof (cases "getPageView s (num_add page (- 1))")
    case None
    then show ?thesis by simp
  next
    case (Some pv)
    note pv = Some
    show ?thesis
    proof (cases "pv_textLayer pv")
      case None
      with pv show ?thesis by simp
    next
      case (Some layer)
      note layer = Some
      show ?thesis
      proof (cases "array_get (textDivs layer) index")
        case None
        with pv layer show ?thesis by simp
      next
        case (Some textDiv)
        note textDiv = Some
        show ?thesis
        proof (cases "array_get (textContentItems layer) index")
          case None
          with pv layer textDiv show ?thesis by simp
        next
          case (Some str)
          note str = Some
          show ?thesis
          proof (cases "setTextContent str textDiv")
            case (TextNode t)
            with pv layer textDiv str show ?thesis
              by (simp add: setTextDivs_def split: option.splits)
          next
            case (Element cls col ch)
            let ?s1 = "(setTextDivs (num_add page (- 1))
                (array_set index
                   (Element (if ''textLayerNode'' \<in> set cls then [''textLayerNode''] else [])
                      col ch)
                   (textDivs layer)) s)
               \<lparr>hs_backlinks := forgetAnnotationEls page (hs_backlinks s)\<rparr>"
            have step: "clearTextHighlight_loop ((page, index) # rest) s
                          = clearTextHighlight_loop rest ?s1"
              using pv layer textDiv str Element by simp
            have ih: "snd (clearTextHighlight_loop rest ?s1)
                 = ?s1\<lparr>hs_pages := hs_pages (snd (clearTextHighlight_loop rest ?s1)),
                        hs_backlinks := hs_backlinks (snd (clearTextHighlight_loop rest ?s1))\<rparr>"
              using "2.IH" [OF pv layer textDiv str Element] .
            have s1: "?s1 = s\<lparr>hs_pages := hs_pages ?s1, hs_backlinks := hs_backlinks ?s1\<rparr>"
              by (simp add: setTextDivs_def split: option.splits)
            show ?thesis
              unfolding step by (subst ih, subst s1) simp
          qed
        qed
      qed
    qed
  qed
qed

lemma clearTextHighlight_frame:
  "snd (clearTextHighlight s)
     = s\<lparr>hs_pages := hs_pages (snd (clearTextHighlight s)),
          hs_backlinks := hs_backlinks (snd (clearTextHighlight s)),
          hs_highlightedTexts := hs_highlightedTexts (snd (clearTextHighlight s))\<rparr>"
proof -
  obtain r s' where r: "clearTextHighlight_loop (hs_highlightedTexts s) s = (r, s')"
    by (cases "clearTextHighlight_loop (hs_highlightedTexts s) s")
  have "s' = s\<lparr>hs_pages := hs_pages s', hs_backlinks := hs_backlinks s'\<rparr>"
    using clearTextHighlight_loop_frame [of "hs_highlightedTexts s" s] r by simp
  then have eq: "s' = s\<lparr>hs_pages := hs_pages s', hs_backlinks := hs_backlinks s',
      hs_highlightedTexts := hs_highlightedTexts s'\<rparr>"
    by (cases s, cases s') simp
  show ?thesis
  proof (cases r)
    case Finished
    with r eq show ?thesis by (cases s, cases s') (simp add: clearTextHighlight_def)
  next
    case EarlyReturn
    with r eq show ?thesis by (simp add: clearTextHighlight_def)
  next
    case (Raised e)
    with r eq show ?thesis by (simp add: clearTextHighlight_def)
  qed
qed

lemma clearTextHighlight_fields:
  "hs_notices (snd (clearTextHighlight s)) = hs_notices s"
  "hs_console (snd (clearTextHighlight s)) = hs_console s"
  "hs_manifestName (snd (clearTextHighlight s)) = hs_manifestName s"
  "hs_registeredEvents (snd (clearTextHighlight s)) = hs_registeredEvents s"
  "hs_highlightedAnnotations (snd (clearTextHighlight s)) = hs_highlightedAnnotations s"
  by (subst clearTextHighlight_frame, simp)+

lemma withoutElements_forget:
  "withoutElements (forgetAnnotationEls page bl) = withoutElements bl"
  by (rule ext) (simp add: withoutElements_def forgetAnnotationEls_def comp_def
      split: option.splits)

lemma clearTextHighlight_loop_descriptors:
  "withoutElements (hs_backlinks (snd (clearTextHighlight_loop xs s)))
     = withoutElements (hs_backlinks s)"
  by (induction xs s rule: clearTextHighlight_loop.induct)
    (simp_all add: setTextDivs_fields withoutElements_forget split: option.splits node.splits)

lemma clearTextHighlight_descriptors:
  "withoutElements (hs_backlinks (snd (clearTextHighlight s))) = withoutElements (hs_backlinks s)"
  using clearTextHighlight_loop_descriptors [of "hs_highlightedTexts s" s]
  by (auto simp: clearTextHighlight_def split: prod.splits loopEnd.splits)

lemma setBacklinks_fields:
  "hs_notices (setBacklinks f s) = hs_notices s"
  "hs_console (setBacklinks f s) = hs_console s"
  "hs_manifestName (setBacklinks f s) = hs_manifestName s"
  "hs_registeredEvents (setBacklinks f s) = hs_registeredEvents s"
  by (simp_all add: setBacklinks_def)

lemma inner_fields:
  "hs_notices (snd (highlightBacklinks_inner s)) = hs_notices s"
  "hs_console (snd (highlightBacklinks_inner s)) = hs_console s"
  "hs_manifestName (snd (highlightBacklinks_inner s)) = hs_manifestName s"
  "hs_registeredEvents (snd (highlightBacklinks_inner s)) = hs_registeredEvents s"
  by (simp_all add: highlightBacklinks_inner_def andThen_def onAnnotationLayerReady_def
      onTextLayerReady_def reloadEventManager_def clearTextHighlight_fields setBacklinks_fields
      split: option.splits completion.splits)

text \<open>
  C3. \<^verbatim>\<open>highlightBacklinks\<close> never throws. When \<^verbatim>\<open>_highlightBacklinks\<close> throws an
  exception, the state is the one the routine left at the throw (it ran once and is not run
  again) with exactly one notice, the failure notice, added to the notices and exactly the
  exception added to the console log. When the routine returns, the state is the one it
  returned, and neither a notice nor a log entry has been added.
\<close>

theorem highlightBacklinks_catches:
  "fst (highlightBacklinks s) = Returned
   \<and> (case highlightBacklinks_inner s of
        (Returned, s') \<Rightarrow>
          snd (highlightBacklinks s) = s'
          \<and> hs_notices s' = hs_notices s \<and> hs_console s' = hs_console s
      | (Threw e, s') \<Rightarrow>
          snd (highlightBacklinks s)
            = s'\<lparr>hs_notices := hs_notices s @ [failureNotice s],
                 hs_console := hs_console s @ [e]\<rparr>)"
proof -
  obtain c s' where r: "highlightBacklinks_inner s = (c, s')"
    by (cases "highlightBacklinks_inner s")
  have f: "hs_notices s' = hs_notices s" "hs_console s' = hs_console s"
    "hs_manifestName s' = hs_manifestName s"
    using inner_fields [of s] r by simp_all
  show ?thesis
    using r f by (cases c) (simp_all add: highlightBacklinks_def failureNotice_def)
qed

text \<open>
  The theorem at a run that throws (a recorded highlight lies outside the text divs, so
  \<^verbatim>\<open>clearTextHighlight\<close> raises a \<^verbatim>\<open>TypeError\<close>) and at a run that returns.
\<close>

theorem highlightBacklinks_catches_witness:
  "fst (highlightBacklinks_inner state_bad_record) = Threw (TypeError OfUndefined)
   \<and> fst (highlightBacklinks state_bad_record) = Returned
   \<and> hs_notices (snd (highlightBacklinks state_bad_record))
       = [''PDF++: Failed to highlight backlinks. Reopen the file to retry.'']
   \<and> hs_console (snd (highlightBacklinks state_bad_record)) = [TypeError OfUndefined]
   \<and> fst (highlightBacklinks_inner state_opened) = Returned
   \<and> hs_notices (snd (highlightBacklinks state_opened)) = []
   \<and> hs_console (snd (highlightBacklinks state_opened)) = []"
proof -
  have bad: "fst (highlightBacklinks_inner state_bad_record) = Threw (TypeError OfUndefined)"
    by (simp add: highlightBacklinks_inner_def state_bad_record_def state_opened_def
        setBacklinks_def andThen_def clearTextHighlight_def getPageView_def page_rendered_def
        toDouble_def)
  have good: "fst (highlightBacklinks_inner state_opened) = Returned"
    by (simp add: highlightBacklinks_inner_def state_opened_def
        setBacklinks_def andThen_def clearTextHighlight_def)
  have n: "hs_notices state_bad_record = []" "hs_console state_bad_record = []"
    "hs_manifestName state_bad_record = ''PDF++''"
    "hs_notices state_opened = []" "hs_console state_opened = []"
    by (simp_all add: state_bad_record_def state_opened_def)
  show ?thesis
    using highlightBacklinks_catches [of state_bad_record]
      highlightBacklinks_catches [of state_opened] bad good n
    by (auto simp: failureNotice_def split: prod.splits completion.splits)
qed

text \<open>
  C10. When the file of the highlighter is null, or the viewer is an embed, or the setting
  \<^verbatim>\<open>highlightBacklinks\<close> is off, \<^verbatim>\<open>_highlightBacklinks\<close> returns at once and the whole
  state is as before: the backlinks map, the recorded text and annotation highlights and all
  registered handlers included.
\<close>

theorem highlightBacklinks_inner_guarded:
  assumes "hs_file s = None \<or> hs_isEmbed s \<or> \<not> hs_highlightBacklinks s"
  shows "highlightBacklinks_inner s = (Returned, s)"
  using assms by (auto simp: highlightBacklinks_inner_def split: option.splits)

text \<open>The theorem at one state for each of the three guards.\<close>

theorem highlightBacklinks_inner_guarded_witness:
  "highlightBacklinks_inner (state_opened\<lparr>hs_file := None\<rparr>)
     = (Returned, state_opened\<lparr>hs_file := None\<rparr>)
   \<and> highlightBacklinks_inner (state_opened\<lparr>hs_isEmbed := True\<rparr>)
     = (Returned, state_opened\<lparr>hs_isEmbed := True\<rparr>)
   \<and> highlightBacklinks_inner state_stale = (Returned, state_stale)"
proof -
  have 1: "hs_file (state_opened\<lparr>hs_file := None\<rparr>) = None
      \<or> hs_isEmbed (state_opened\<lparr>hs_file := None\<rparr>)
      \<or> \<not> hs_highlightBacklinks (state_opened\<lparr>hs_file := None\<rparr>)"
    by simp
  have 2: "hs_file (state_opened\<lparr>hs_isEmbed := True\<rparr>) = None
      \<or> hs_isEmbed (state_opened\<lparr>hs_isEmbed := True\<rparr>)
      \<or> \<not> hs_highlightBacklinks (state_opened\<lparr>hs_isEmbed := True\<rparr>)"
    by simp
  have 3: "hs_file state_stale = None \<or> hs_isEmbed state_stale
      \<or> \<not> hs_highlightBacklinks state_stale"
    by (simp add: state_stale_def)
  show ?thesis
    using highlightBacklinks_inner_guarded [OF 1] highlightBacklinks_inner_guarded [OF 2]
      highlightBacklinks_inner_guarded [OF 3]
    by simp
qed

lemma highlightBacklinks_backlinks:
  "hs_backlinks (snd (highlightBacklinks s)) = hs_backlinks (snd (highlightBacklinks_inner s))"
  by (simp add: highlightBacklinks_def split: prod.splits completion.splits)

lemma highlightBacklinks_registeredEvents:
  "hs_registeredEvents (snd (highlightBacklinks s)) = hs_registeredEvents s"
  using inner_fields(4) [of s]
  by (auto simp: highlightBacklinks_def split: prod.splits completion.splits)

lemma inner_descriptors:
  "withoutElements (hs_backlinks (snd (highlightBacklinks_inner s)))
     = (case hs_file s of
          None \<Rightarrow> withoutElements (hs_backlinks s)
        | Some f \<Rightarrow>
            if hs_isEmbed s \<or> \<not> hs_highlightBacklinks s then withoutElements (hs_backlinks s)
            else withoutElements (hs_backlinks (setBacklinks f s)))"
  using clearTextHighlight_descriptors
  by (simp add: highlightBacklinks_inner_def andThen_def onAnnotationLayerReady_def
      onTextLayerReady_def reloadEventManager_def
      split: option.splits completion.splits)

text \<open>
  C4, as the code has it. \<^verbatim>\<open>setBacklinks\<close> discards the previous map: the map after the
  call does not depend on the map before it, and two states whose caches hold the same links
  to the file get the same map. \<^verbatim>\<open>onload\<close> registers the listener for the
  metadata-resolution event unless the viewer is an embed. When the listener runs, the
  backlink descriptors of the map are those of a rebuild from the cache provided the
  highlighter has a file, the viewer is not an embed and the setting
  \<^verbatim>\<open>highlightBacklinks\<close> is on; otherwise the event leaves the map as it was.
\<close>

theorem setBacklinks_rebuilds:
  "hs_backlinks (setBacklinks file (s\<lparr>hs_backlinks := b\<rparr>)) = hs_backlinks (setBacklinks file s)
   \<and> (hs_metadataCache s file = hs_metadataCache s' file \<longrightarrow>
        hs_backlinks (setBacklinks file s) = hs_backlinks (setBacklinks file s'))
   \<and> hs_registeredEvents (snd (onload s))
       = (if hs_isEmbed s then hs_registeredEvents s else hs_registeredEvents s @ [''resolved''])
   \<and> withoutElements (hs_backlinks (snd (onResolved s)))
       = (case hs_file s of
            None \<Rightarrow> withoutElements (hs_backlinks s)
          | Some f \<Rightarrow>
              if hs_isEmbed s \<or> \<not> hs_highlightBacklinks s then withoutElements (hs_backlinks s)
              else withoutElements (hs_backlinks (setBacklinks f s)))"
proof (intro conjI)
  show "hs_backlinks (setBacklinks file (s\<lparr>hs_backlinks := b\<rparr>)) = hs_backlinks (setBacklinks file s)"
    by (simp add: setBacklinks_def)
  show "hs_metadataCache s file = hs_metadataCache s' file \<longrightarrow>
        hs_backlinks (setBacklinks file s) = hs_backlinks (setBacklinks file s')"
    by (simp add: setBacklinks_def)
  have "fst (highlightBacklinks s) = Returned"
    by (simp add: highlightBacklinks_def split: prod.splits completion.splits)
  then show "hs_registeredEvents (snd (onload s))
       = (if hs_isEmbed s then hs_registeredEvents s else hs_registeredEvents s @ [''resolved''])"
    by (simp add: onload_def andThen_def highlightBacklinks_registeredEvents)
  show "withoutElements (hs_backlinks (snd (onResolved s)))
       = (case hs_file s of
            None \<Rightarrow> withoutElements (hs_backlinks s)
          | Some f \<Rightarrow>
              if hs_isEmbed s \<or> \<not> hs_highlightBacklinks s then withoutElements (hs_backlinks s)
              else withoutElements (hs_backlinks (setBacklinks f s)))"
    by (simp only: onResolved_def highlightBacklinks_backlinks inner_descriptors)
qed

text \<open>
  The theorem at the opened PDF with one selection link in the cache and an empty map: the
  event rebuilds the map, which then holds the entry of the link under page 1.
\<close>

theorem setBacklinks_rebuilds_witness:
  "withoutElements (hs_backlinks (snd (onResolved (state_with_links [link_selection])))) (Num 1)
     = Some \<lparr>selection = [selectionInfoOf (''note.md'', link_selection)], annotation = []\<rparr>"
proof -
  have "withoutElements (hs_backlinks (snd (onResolved (state_with_links [link_selection]))))
      = withoutElements (hs_backlinks (setBacklinks ''doc.pdf'' (state_with_links [link_selection])))"
    using setBacklinks_rebuilds [where s = "state_with_links [link_selection]"]
    by (simp add: state_with_links_def state_opened_def)
  then have "withoutElements (hs_backlinks (snd (onResolved (state_with_links [link_selection])))) (Num 1)
      = withoutElements (hs_backlinks (setBacklinks ''doc.pdf'' (state_with_links [link_selection]))) (Num 1)"
    by (rule fun_cong)
  moreover have "withoutElements
      (hs_backlinks (setBacklinks ''doc.pdf'' (state_with_links [link_selection]))) (Num 1)
      = Some \<lparr>selection = [selectionInfoOf (''note.md'', link_selection)], annotation = []\<rparr>"
    by (simp add: withoutElements_def setBacklinks_def state_with_links_def addBacklink_def
        Let_def link_selection_def params_has_def params_get_def nonNull_def entryAt_def
        selectionInfoOf_def linkPage_def selectionParts_def
        parseInt_def isWhiteSpace_def isDigitOf_def digitValue_def digitsValue_def toDouble_def)
  ultimately show ?thesis by (simp only:)
qed

text \<open>
  C4 as stated fails: with highlighting switched off in the settings, the map still holds the
  entry of a link that the cache no longer has; the metadata-resolution event leaves that entry
  in place, although a rebuild from the cache has no entry for the page.
\<close>

theorem stale_map_counterexample:
  "hs_backlinks (snd (onResolved state_stale)) (Num 1)
     = Some \<lparr>selection = [selectionInfoOf (''note.md'', link_selection)], annotation = []\<rparr>
   \<and> hs_backlinks (setBacklinks ''doc.pdf'' state_stale) (Num 1) = None"
  by (simp add: onResolved_def highlightBacklinks_def highlightBacklinks_inner_def
      state_stale_def state_opened_def setBacklinks_def)

section \<open>Teardown\<close>

lemma clearAnnotationHighlight_keys:
  "set (map fst (hs_highlightedAnnotations (clearAnnotationHighlight k s)))
     = set (map fst (hs_highlightedAnnotations s)) - {k}"
proof (cases "map_of (hs_highlightedAnnotations s) k")
  case None
  then have "k \<notin> set (map fst (hs_highlightedAnnotations s))"
    by (simp add: map_of_eq_None_iff)
  with None show ?thesis by (simp add: clearAnnotationHighlight_def)
next
  case (Some el)
  then show ?thesis
    by (auto simp: clearAnnotationHighlight_def AList.delete_eq)
qed

lemma fold_clearAnnotationHighlight_keys:
  "set (map fst (hs_highlightedAnnotations (fold clearAnnotationHighlight ks s)))
     = set (map fst (hs_highlightedAnnotations s)) - set ks"
proof (induction ks arbitrary: s)
  case Nil
  show ?case by simp
next
  case (Cons k ks)
  show ?case
    by (simp only: fold_simps Cons.IH clearAnnotationHighlight_keys) auto
qed

text \<open>
  The annotation half of the teardown: when \<^verbatim>\<open>clearTextHighlight\<close> does not throw, no
  annotation highlight stays registered and no registered rectangle stays in a layer.
\<close>

lemma onunload_clears_annotations:
  assumes "fst (clearTextHighlight s) = Returned"
  shows "hs_highlightedAnnotations (snd (onunload s)) = []"
proof -
  let ?s1 = "snd (clearTextHighlight s)"
  have "onunload s
      = (Returned, fold clearAnnotationHighlight (map fst (hs_highlightedAnnotations ?s1)) ?s1)"
    using assms by (simp add: onunload_def andThen_def)
  moreover have "set (map fst (hs_highlightedAnnotations
      (fold clearAnnotationHighlight (map fst (hs_highlightedAnnotations ?s1)) ?s1))) = {}"
    by (simp only: fold_clearAnnotationHighlight_keys Diff_cancel)
  ultimately show ?thesis by simp
qed

text \<open>
  C5, at a failing input. Page 1 and page 2 each carry a text highlight and page 1 is far
  from the viewport, so its text layer is gone. \<^verbatim>\<open>onunload\<close> returns normally, the
  annotation highlights are cleared, but \<^verbatim>\<open>clearTextHighlight\<close> leaves through the
  \<^verbatim>\<open>return\<close> in its loop at the first record: \<^verbatim>\<open>highlightedTexts\<close> keeps all six
  records, and the first text div of page 2 keeps its highlight span.
\<close>

theorem onunload_leaves_text_highlights:
  "fst (onunload state_page1_away) = Returned
   \<and> hs_highlightedAnnotations (snd (onunload state_page1_away)) = []
   \<and> hs_highlightedTexts (snd (onunload state_page1_away))
       = [(Num 1, Num 0), (Num 1, Num 0), (Num 1, Num 0),
          (Num 2, Num 0), (Num 2, Num 0), (Num 2, Num 0)]
   \<and> map_option (map (map_option textDivs \<circ> pv_textLayer))
        (hs_pages (snd (onunload state_page1_away)))
       = Some [None,
               Some [Element [''textLayerNode''] None
                       [TextNode [],
                        Element [''mod-focused'', ''selected'', ''pdf-plus-backlink'', ''appended'']
                          None [TextNode ''He''],
                        TextNode ''llo ''],
                     Element [''textLayerNode''] None [TextNode ''world'']]]"
  by code_simp

section \<open>Text highlights: numbers, arrays and the local functions of highlightText\<close>

declare middleDivs.simps [simp del]

declare bitLength.simps [simp del]

lemma bitLength_bounds: "0 < n \<Longrightarrow> 2 ^ (bitLength n - 1) \<le> n \<and> n < 2 ^ bitLength n"
proof (induction n rule: bitLength.induct)
  case (1 n)
  show ?case
  proof (cases "n div 2 = 0")
    case True
    with "1.prems" have "n = 1" by presburger
    then show ?thesis by (simp add: bitLength.simps)
  next
    case False
    then have pos: "0 < n div 2" by simp
    from "1.IH" [OF _ pos] "1.prems"
    have ih: "2 ^ (bitLength (n div 2) - 1) \<le> n div 2" "n div 2 < 2 ^ bitLength (n div 2)"
      by simp_all
    have bl: "bitLength n = Suc (bitLength (n div 2))"
      using "1.prems" by (subst bitLength.simps) simp
    have "0 < bitLength (n div 2)" using pos by (subst bitLength.simps) simp
    then obtain b where b: "bitLength (n div 2) = Suc b" by (cases "bitLength (n div 2)") auto
    from ih b have "2 ^ b \<le> n div 2" "n div 2 < 2 * 2 ^ b" by simp_all
    then have "2 * 2 ^ b \<le> n" "n < 2 * (2 * 2 ^ b)" by presburger+
    with bl b show ?thesis by simp
  qed
qed

lemma roundMagnitude_large:
  assumes "9007199254740992 \<le> m"
  shows "9007199254740992 \<le> roundMagnitude m"
proof -
  have pos: "0 < m" using assms by simp
  from bitLength_bounds [OF pos] have lo: "2 ^ (bitLength m - 1) \<le> m" and hi: "m < 2 ^ bitLength m"
    by simp_all
  have p53: "(9007199254740992 :: nat) = 2 ^ 53" by simp
  have "(2::nat) ^ 53 \<le> m" using assms by simp
  from this hi have "(2::nat) ^ 53 < 2 ^ bitLength m" by (rule le_less_trans)
  then have "53 < bitLength m" by (rule power_less_imp_less_exp [rotated]) simp
  then obtain e where e: "bitLength m = 53 + e" "0 < e"
    by (metis less_imp_add_positive)
  have "2 ^ (52 + e) \<le> m" using lo e by simp
  then have "2 ^ 52 * 2 ^ e \<le> m" by (simp add: power_add)
  then have q: "2 ^ 52 \<le> m div 2 ^ e"
    by (simp add: less_eq_div_iff_mult_less_eq)
  define q' where "q' = (if 2 ^ (e - 1) < m mod 2 ^ e \<or> (m mod 2 ^ e = 2 ^ (e - 1) \<and> odd (m div 2 ^ e))
      then m div 2 ^ e + 1 else m div 2 ^ e)"
  have "2 ^ 52 \<le> q'" using q by (simp add: q'_def)
  moreover have "(2::nat) \<le> 2 ^ e" using e(2) by (cases e) simp_all
  ultimately have "2 ^ 52 * 2 \<le> q' * 2 ^ e" by (rule mult_le_mono)
  moreover have "roundMagnitude m = q' * 2 ^ e"
    by (simp add: roundMagnitude_def Let_def e q'_def)
  ultimately show ?thesis by simp
qed

lemma toDouble_small: "\<bar>x\<bar> < 9007199254740992 \<Longrightarrow> toDouble x = Num x"
  by (simp add: toDouble_def)

lemma toDouble_Num_small:
  assumes "toDouble x = Num k" and "\<bar>k\<bar> < 9007199254740992"
  shows "x = k"
proof (cases "\<bar>x\<bar> < 9007199254740992")
  case True
  with assms(1) show ?thesis by (simp add: toDouble_def)
next
  case False
  then have "9007199254740992 \<le> nat \<bar>x\<bar>" by simp
  from roundMagnitude_large [OF this] have "9007199254740992 \<le> int (roundMagnitude (nat \<bar>x\<bar>))"
    by simp
  with False assms show ?thesis
    by (auto simp: toDouble_def Let_def split: if_splits)
qed

text \<open>The number whose predecessor is a given array index.\<close>

lemma num_add_index:
  assumes "num_add p (- 1) = Num k" and "0 \<le> k" and "k < 4294967295"
  shows "p = Num (k + 1)"
proof (cases p)
  case (Num a)
  with assms(1) have "toDouble (a - 1) = Num k" by simp
  from toDouble_Num_small [OF this] assms(2,3) have "a - 1 = k" by simp
  with Num show ?thesis by simp
qed (use assms in simp_all)

lemma array_get_Some_iff:
  "array_get xs n = Some x \<longleftrightarrow>
     (\<exists>k. n = Num k \<and> 0 \<le> k \<and> k < int (length xs) \<and> k < 4294967295 \<and> xs ! nat k = x)"
  by (cases n) (simp_all, blast)

lemma num_add_same_index:
  assumes "array_get xs (num_add p (- 1)) \<noteq> None"
  shows "(num_add q (- 1) = num_add p (- 1)) = (q = p)"
proof -
  from assms obtain k where k: "num_add p (- 1) = Num k" "0 \<le> k" "k < 4294967295"
    by (cases "num_add p (- 1)") (simp_all split: if_splits)
  have "q = p" if h: "num_add q (- 1) = num_add p (- 1)"
  proof -
    from h k(1) have "num_add q (- 1) = Num k" by (rule trans)
    from num_add_index [OF this k(2,3)] num_add_index [OF k] show ?thesis by (simp only:)
  qed
  then show ?thesis by blast
qed

lemma length_array_set: "length (array_set n v xs) = length xs"
  by (cases n) simp_all

lemma array_get_set:
  assumes "array_get xs n \<noteq> None"
  shows "array_get (array_set n v xs) m = (if m = n then Some v else array_get xs m)"
proof -
  from assms obtain k where k: "n = Num k" "0 \<le> k" "k < int (length xs)" "k < 4294967295"
    by (cases n) (simp_all split: if_splits)
  show ?thesis
  proof (cases m)
    case (Num j)
    show ?thesis
    proof (cases "j = k")
      case True
      with k Num show ?thesis by simp
    next
      case False
      then have "0 \<le> j \<Longrightarrow> nat j \<noteq> nat k" using k by simp
      with False k Num show ?thesis by auto
    qed
  qed (use k in simp_all)
qed

lemma array_get_set_range:
  "(array_get (array_set n v xs) m = None) = (array_get xs m = None)"
  by (cases n; cases m) simp_all

lemma array_set_twice: "array_set n v (array_set n w xs) = array_set n v xs"
  by (cases n) simp_all

lemma array_get_None_length:
  "length xs = length ys \<Longrightarrow> (array_get xs n = None) = (array_get ys n = None)"
  by (cases n) simp_all

lemma in_range_Num:
  "array_get xs n \<noteq> None \<Longrightarrow> \<exists>k. n = Num k \<and> 0 \<le> k \<and> k < int (length xs) \<and> k < 4294967295"
  by (cases n) (simp_all split: if_splits)

lemma all_elements_set:
  "list_all isElement xs \<Longrightarrow> isElement d \<Longrightarrow> list_all isElement (array_set n d xs)"
  by (cases n) (auto simp: list_all_iff dest!: set_update_subset_insert [THEN subsetD])

lemma all_elements_unset:
  assumes "list_all isElement (array_set n d xs)" and "array_get xs n = Some d0" and "isElement d0"
  shows "list_all isElement xs"
proof -
  from assms(2) obtain k where k: "n = Num k" "0 \<le> k" "k < int (length xs)" "xs ! nat k = d0"
    by (auto simp: array_get_Some_iff)
  have "isElement (xs ! j)" if "j < length xs" for j
  proof (cases "j = nat k")
    case True
    with k assms(3) show ?thesis by simp
  next
    case False
    from assms(1) k that have "isElement (xs[nat k := d] ! j)"
      by (simp add: list_all_length)
    with False show ?thesis by simp
  qed
  then show ?thesis by (simp add: list_all_length)
qed

lemma ex_elementI:
  "xs' = array_set idx d xs \<Longrightarrow> isElement d
     \<Longrightarrow> \<exists>d'. isElement d' \<and> xs' = array_set idx d' xs"
  by blast

lemma divideAndWrapText_Returned:
  assumes "divideAndWrapText p items col idx from to cn ctx = (Returned, ctx')"
  shows "\<exists>d'. isElement d' \<and> array_get (ctx_divs ctx) idx \<noteq> None \<and> array_get items idx \<noteq> None
           \<and> ctx_texts ctx' = ctx_texts ctx @ [(p, idx)]
           \<and> ctx_divs ctx' = array_set idx d' (ctx_divs ctx)"
proof (cases "array_get (ctx_divs ctx) idx")
  case None
  with assms show ?thesis by (simp add: divideAndWrapText_def)
next
  case (Some d)
  note d = Some
  show ?thesis
  proof (cases "array_get items idx")
    case None
    with assms d show ?thesis by (simp add: divideAndWrapText_def Let_def)
  next
    case (Some str)
    with assms d show ?thesis
      by (cases d)
        (auto simp: divideAndWrapText_def Let_def array_set_twice split: if_splits
          intro!: ex_elementI)
  qed
qed

lemma divideAndWrapText_in_range:
  assumes "array_get (ctx_divs ctx) idx \<noteq> None" and "array_get items idx \<noteq> None"
  shows "fst (divideAndWrapText p items col idx from to cn ctx) = Returned"
  using assms by (auto simp: divideAndWrapText_def Let_def)

lemma divideAndWrapTextStart_Returned:
  assumes "divideAndWrapTextStart p items col idx off cn ctx = (Returned, ctx')"
  shows "\<exists>d'. isElement d' \<and> array_get (ctx_divs ctx) idx \<noteq> None \<and> array_get items idx \<noteq> None
           \<and> ctx_texts ctx' = ctx_texts ctx @ [(p, idx)]
           \<and> ctx_divs ctx' = array_set idx d' (ctx_divs ctx)"
proof (cases "array_get (ctx_divs ctx) idx")
  case None
  with assms show ?thesis by (simp add: divideAndWrapTextStart_def)
next
  case (Some d)
  with assms have "divideAndWrapText p items col idx (Num 0) (Some off) cn
      (ctx\<lparr>ctx_divs := array_set idx (setTextContent [] d) (ctx_divs ctx)\<rparr>) = (Returned, ctx')"
    by (simp add: divideAndWrapTextStart_def)
  from divideAndWrapText_Returned [OF this] Some show ?thesis
    by (auto simp: array_set_twice)
qed

lemma divideAndWrapTextStart_in_range:
  assumes "array_get (ctx_divs ctx) idx \<noteq> None" and "array_get items idx \<noteq> None"
  shows "fst (divideAndWrapTextStart p items col idx off cn ctx) = Returned"
  using assms
  by (auto simp: divideAndWrapTextStart_def divideAndWrapText_in_range array_get_set)

lemma divideAndWrapTextStart_out_of_range:
  assumes "array_get (ctx_divs ctx) idx = None"
  shows "divideAndWrapTextStart p items col idx off cn ctx = (Threw (TypeError OfUndefined), ctx)"
  using assms by (simp add: divideAndWrapTextStart_def)

lemma grows_refl: "grows p ctx ctx"
  by (simp add: grows_def)

lemma grows_trans:
  assumes "grows p a b" and "grows p b c"
  shows "grows p a c"
proof -
  from assms obtain n1 n2 where
    len: "length (ctx_divs b) = length (ctx_divs a)" "length (ctx_divs c) = length (ctx_divs b)"
    and el1: "\<forall>j < length (ctx_divs a). isElement (ctx_divs a ! j) \<longrightarrow> isElement (ctx_divs b ! j)"
    and el2: "\<forall>j < length (ctx_divs b). isElement (ctx_divs b ! j) \<longrightarrow> isElement (ctx_divs c ! j)"
    and t1: "ctx_texts b = ctx_texts a @ n1"
    and t2: "ctx_texts c = ctx_texts b @ n2"
    and r1: "\<forall>r \<in> set n1. fst r = p
        \<and> (case array_get (ctx_divs b) (snd r) of None \<Rightarrow> False | Some d \<Rightarrow> isElement d)"
    and r2: "\<forall>r \<in> set n2. fst r = p
        \<and> (case array_get (ctx_divs c) (snd r) of None \<Rightarrow> False | Some d \<Rightarrow> isElement d)"
    unfolding grows_def by blast
  have keep: "(case array_get (ctx_divs c) n of None \<Rightarrow> False | Some d \<Rightarrow> isElement d)"
    if "(case array_get (ctx_divs b) n of None \<Rightarrow> False | Some d \<Rightarrow> isElement d)" for n
  proof -
    from that obtain d where d: "array_get (ctx_divs b) n = Some d" "isElement d"
      by (auto split: option.splits)
    then obtain k where k: "n = Num k" "0 \<le> k" "k < int (length (ctx_divs b))"
      "k < 4294967295" "ctx_divs b ! nat k = d"
      by (auto simp: array_get_Some_iff)
    then have "nat k < length (ctx_divs b)" by simp
    with el2 k d have "isElement (ctx_divs c ! nat k)" by auto
    with k len show ?thesis by simp
  qed
  have "ctx_texts c = ctx_texts a @ (n1 @ n2)" using t1 t2 by simp
  moreover have "\<forall>r \<in> set (n1 @ n2). fst r = p
        \<and> (case array_get (ctx_divs c) (snd r) of None \<Rightarrow> False | Some d \<Rightarrow> isElement d)"
    using r1 r2 keep by auto
  moreover have "length (ctx_divs c) = length (ctx_divs a)" using len by simp
  moreover have "\<forall>j < length (ctx_divs a). isElement (ctx_divs a ! j) \<longrightarrow> isElement (ctx_divs c ! j)"
    using el1 el2 len by auto
  ultimately show ?thesis unfolding grows_def by blast
qed

lemma grows_set:
  assumes "array_get (ctx_divs ctx) idx \<noteq> None" and "isElement d'"
    and "ctx_texts ctx' = ctx_texts ctx @ [(p, idx)]"
    and "ctx_divs ctx' = array_set idx d' (ctx_divs ctx)"
  shows "grows p ctx ctx'"
proof -
  from in_range_Num [OF assms(1)]
  obtain k where k: "idx = Num k" "0 \<le> k" "k < int (length (ctx_divs ctx))" by blast
  have "\<forall>j < length (ctx_divs ctx). isElement (ctx_divs ctx ! j) \<longrightarrow> isElement (ctx_divs ctx' ! j)"
    using assms(2,4) k by (auto simp: nth_list_update)
  moreover have "array_get (ctx_divs ctx') idx = Some d'"
    using assms(1,4) by (simp add: array_get_set)
  ultimately show ?thesis
    using assms(2,3,4) unfolding grows_def
    by (auto simp: length_array_set)
qed

lemma divideAndWrapText_grows:
  "divideAndWrapText p items col idx from to cn ctx = (Returned, ctx') \<Longrightarrow> grows p ctx ctx'"
  using divideAndWrapText_Returned grows_set by blast

lemma divideAndWrapTextStart_grows:
  "divideAndWrapTextStart p items col idx off cn ctx = (Returned, ctx') \<Longrightarrow> grows p ctx ctx'"
  using divideAndWrapTextStart_Returned grows_set by blast

lemma middleDivs_grows:
  "middleDivs p col i e ctx = (Returned, ctx') \<Longrightarrow> grows p ctx ctx'"
proof (induction p col i e ctx rule: middleDivs.induct)
  case (1 p col i e ctx)
  show ?case
  proof (cases "num_less i e")
    case False
    with "1.prems" have "ctx' = ctx" by (subst (asm) middleDivs.simps) simp
    then show ?thesis by (simp add: grows_refl)
  next
    case True
    define ctx1 where "ctx1 = ctx\<lparr>ctx_texts := ctx_texts ctx @ [(p, i)]\<rparr>"
    show ?thesis
    proof (cases "array_get (ctx_divs ctx1) i")
      case None
      with True "1.prems" show ?thesis
        by (subst (asm) middleDivs.simps) (simp add: ctx1_def)
    next
      case (Some d)
      show ?thesis
      proof (cases d)
        case (TextNode t)
        with Some True "1.prems" show ?thesis
          by (subst (asm) middleDivs.simps) (simp add: ctx1_def)
      next
        case (Element cls c ch)
        define d' where "d' = Element
            (classList_add [''mod-focused'', ''middle'', ''selected'', ''pdf-plus-backlink''] cls)
            (if truthy col then Some (toLowerCase (nonNull col)) else c) ch"
        define ctx2 where "ctx2 = ctx1\<lparr>ctx_divs := array_set i d' (ctx_divs ctx1),
            ctx_calls := ctx_calls ctx1 @ [WholeDiv i]\<rparr>"
        have run: "middleDivs p col (num_add i 1) e ctx2 = (Returned, ctx')"
          using "1.prems" True Some Element
          by (subst (asm) middleDivs.simps) (simp add: ctx1_def ctx2_def d'_def)
        have "grows p ctx2 ctx'"
          using "1.IH" [OF True ctx1_def Some Element] run
          by (simp add: ctx2_def d'_def)
        moreover have "grows p ctx ctx2"
        proof (rule grows_set)
          show "array_get (ctx_divs ctx) i \<noteq> None" using Some by (simp add: ctx1_def)
          show "isElement d'" by (simp add: d'_def)
          show "ctx_texts ctx2 = ctx_texts ctx @ [(p, i)]" by (simp add: ctx2_def ctx1_def)
          show "ctx_divs ctx2 = array_set i d' (ctx_divs ctx)" by (simp add: ctx2_def ctx1_def)
        qed
        ultimately show ?thesis using grows_trans by blast
      qed
    qed
  qed
qed

lemma andThen_Returned:
  "andThen r g = (Returned, c') \<Longrightarrow> \<exists>c1. r = (Returned, c1) \<and> g c1 = (Returned, c')"
  by (cases r) (auto simp: andThen_def split: completion.splits)

lemma highlightInLayer_grows:
  assumes "highlightInLayer p items col b bo e eo ctx = (Returned, ctx')"
  shows "grows p ctx ctx'"
proof -
  from assms obtain c3 where
    c3: "andThen (divideAndWrapTextStart p items col b bo None ctx)
          (\<lambda>c. if num_strict_eq b e then
               divideAndWrapText p items col b bo (Some eo)
                 (Some ''mod-focused selected pdf-plus-backlink'') c
             else
               andThen
                 (andThen
                    (divideAndWrapText p items col b bo None
                       (Some ''mod-focused begin selected pdf-plus-backlink'') c)
                    (middleDivs p col (num_add b 1) e))
                 (divideAndWrapTextStart p items col e eo
                    (Some ''mod-focused endselected pdf-plus-backlink''))) = (Returned, c3)"
    and last: "divideAndWrapText p items col e eo None None c3 = (Returned, ctx')"
    unfolding highlightInLayer_def by (blast dest: andThen_Returned)
  from andThen_Returned [OF c3] obtain c1 where
    c1: "divideAndWrapTextStart p items col b bo None ctx = (Returned, c1)"
    and mid: "(if num_strict_eq b e then
               divideAndWrapText p items col b bo (Some eo)
                 (Some ''mod-focused selected pdf-plus-backlink'') c1
             else
               andThen
                 (andThen
                    (divideAndWrapText p items col b bo None
                       (Some ''mod-focused begin selected pdf-plus-backlink'') c1)
                    (middleDivs p col (num_add b 1) e))
                 (divideAndWrapTextStart p items col e eo
                    (Some ''mod-focused endselected pdf-plus-backlink''))) = (Returned, c3)"
    by blast
  have g1: "grows p ctx c1" using c1 by (rule divideAndWrapTextStart_grows)
  have g3: "grows p c1 c3"
  proof (cases "num_strict_eq b e")
    case True
    with mid show ?thesis by (simp add: divideAndWrapText_grows)
  next
    case False
    with mid obtain c2a c2b where
      a: "divideAndWrapText p items col b bo None
            (Some ''mod-focused begin selected pdf-plus-backlink'') c1 = (Returned, c2a)"
      and m: "middleDivs p col (num_add b 1) e c2a = (Returned, c2b)"
      and z: "divideAndWrapTextStart p items col e eo
            (Some ''mod-focused endselected pdf-plus-backlink'') c2b = (Returned, c3)"
      by (auto dest!: andThen_Returned)
    have "grows p c1 c2a" using a by (rule divideAndWrapText_grows)
    moreover have "grows p c2a c2b" using m by (rule middleDivs_grows)
    moreover have "grows p c2b c3" using z by (rule divideAndWrapTextStart_grows)
    ultimately show ?thesis by (meson grows_trans)
  qed
  have g4: "grows p c3 ctx'" using last by (rule divideAndWrapText_grows)
  from g1 g3 g4 show ?thesis by (meson grows_trans)
qed

section \<open>Text divs in the state\<close>

lemma getPageView_setTextDivs:
  assumes "getPageView s P = Some pv" and "pv_textLayer pv = Some layer"
  shows "getPageView (setTextDivs P divs s) Q
           = (if Q = P then Some (pv\<lparr>pv_textLayer := Some (layer\<lparr>textDivs := divs\<rparr>)\<rparr>)
              else getPageView s Q)"
proof -
  from assms(1) obtain pages where pages: "hs_pages s = Some pages" "array_get pages P = Some pv"
    by (auto simp: getPageView_def split: option.splits)
  then have "hs_pages (setTextDivs P divs s)
      = Some (array_set P (pv\<lparr>pv_textLayer := Some (layer\<lparr>textDivs := divs\<rparr>)\<rparr>) pages)"
    using assms(2) by (simp add: setTextDivs_def)
  then show ?thesis
    using pages by (simp add: getPageView_def array_get_set)
qed

lemma divAt_setTextDivs:
  assumes "getPageView s P = Some pv" and "pv_textLayer pv = Some layer"
  shows "divAt (setTextDivs P divs s) q j
           = (if num_add q (- 1) = P then array_get divs j else divAt s q j)"
  by (simp add: divAt_def getPageView_setTextDivs [OF assms])

lemma itemAt_setTextDivs:
  "itemAt (setTextDivs P divs s) q j = itemAt s q j"
proof (cases "getPageView s P")
  case None
  then have "setTextDivs P divs s = s"
    by (simp add: setTextDivs_def getPageView_def split: option.splits)
  then show ?thesis by simp
next
  case (Some pv)
  show ?thesis
  proof (cases "pv_textLayer pv")
    case None
    with Some have "setTextDivs P divs s = s"
      by (auto simp: setTextDivs_def getPageView_def split: option.splits)
    then show ?thesis by simp
  next
    case (Some layer)
    with \<open>getPageView s P = Some pv\<close> show ?thesis
      by (auto simp: itemAt_def getPageView_setTextDivs)
  qed
qed

lemma divAt_fields:
  "divAt (s\<lparr>hs_backlinks := bl\<rparr>) = divAt s"
  "divAt (s\<lparr>hs_highlightedTexts := ts\<rparr>) = divAt s"
  "itemAt (s\<lparr>hs_backlinks := bl\<rparr>) = itemAt s"
  "itemAt (s\<lparr>hs_highlightedTexts := ts\<rparr>) = itemAt s"
  by (simp_all add: divAt_def itemAt_def getPageView_def fun_eq_iff)

lemma restored_iff:
  "restored s (p, i) =
     (\<exists>cls col str. divAt s p i = Some (Element cls col (if str = [] then [] else [TextNode str]))
        \<and> itemAt s p i = Some str \<and> (cls = [] \<or> cls = [''textLayerNode'']))"
  by (auto simp: restored_def split: option.splits node.splits)

lemma recordOk_fields:
  "recordOk (s\<lparr>hs_backlinks := bl\<rparr>) = recordOk s"
  "recordOk (s\<lparr>hs_highlightedTexts := ts\<rparr>) = recordOk s"
  "restored (s\<lparr>hs_backlinks := bl\<rparr>) = restored s"
  "restored (s\<lparr>hs_highlightedTexts := ts\<rparr>) = restored s"
  by (simp_all add: recordOk_def restored_iff divAt_fields fun_eq_iff cong: option.case_cong)

section \<open>clearTextHighlight on sound records\<close>

lemma clear_step:
  assumes "recordOk s (p, i)"
  shows "\<exists>s1. clearTextHighlight_loop ((p, i) # rest) s = clearTextHighlight_loop rest s1
           \<and> restored s1 (p, i)
           \<and> (\<forall>r. recordOk s r \<longrightarrow> recordOk s1 r)
           \<and> (\<forall>r. restored s r \<longrightarrow> restored s1 r)"
proof -
  from assms obtain pv layer cls col ch str where
    pv: "getPageView s (num_add p (- 1)) = Some pv"
    and layer: "pv_textLayer pv = Some layer"
    and d: "array_get (textDivs layer) i = Some (Element cls col ch)"
    and str: "array_get (textContentItems layer) i = Some str"
    by (auto simp: recordOk_def divAt_def itemAt_def split: option.splits elim: isElement.elims)
  define d1 where "d1 = Element (if ''textLayerNode'' \<in> set cls then [''textLayerNode''] else [])
      col (if str = [] then [] else [TextNode str])"
  define s1 where "s1 = (setTextDivs (num_add p (- 1)) (array_set i d1 (textDivs layer)) s)
      \<lparr>hs_backlinks := forgetAnnotationEls p (hs_backlinks s)\<rparr>"
  have run: "clearTextHighlight_loop ((p, i) # rest) s = clearTextHighlight_loop rest s1"
    using pv layer d str by (simp add: s1_def d1_def)
  from pv have "array_get (the (hs_pages s)) (num_add p (- 1)) \<noteq> None"
    by (auto simp: getPageView_def split: option.splits)
  then have same_page: "(num_add q (- 1) = num_add p (- 1)) = (q = p)" for q
    by (rule num_add_same_index)
  have dv: "divAt s1 q j = (if q = p \<and> j = i then Some d1 else divAt s q j)" for q j
  proof -
    have "divAt s1 q j = (if num_add q (- 1) = num_add p (- 1)
        then array_get (array_set i d1 (textDivs layer)) j else divAt s q j)"
      by (simp add: s1_def divAt_fields divAt_setTextDivs [OF pv layer])
    also have "\<dots> = (if q = p \<and> j = i then Some d1 else divAt s q j)"
      using d pv layer by (auto simp: same_page array_get_set divAt_def)
    finally show ?thesis .
  qed
  have it: "itemAt s1 q j = itemAt s q j" for q j
    by (simp add: s1_def divAt_fields itemAt_setTextDivs)
  have it_pi: "itemAt s p i = Some str"
    using pv layer str by (simp add: itemAt_def)
  have tc: "textContent d1 = str" by (simp add: d1_def)
  have "restored s1 (p, i)"
    by (simp add: restored_iff dv it it_pi d1_def)
  moreover have "recordOk s1 r" if "recordOk s r" for r
    using that it_pi by (cases r) (auto simp: recordOk_def dv it d1_def split: option.splits)
  moreover have "restored s1 r" if "restored s r" for r
    using that it_pi by (cases r) (auto simp: restored_iff dv it d1_def)
  ultimately show ?thesis using run by blast
qed

lemma clear_loop_ok:
  "list_all (recordOk s) xs \<Longrightarrow>
     fst (clearTextHighlight_loop xs s) = Finished
     \<and> list_all (restored (snd (clearTextHighlight_loop xs s))) xs
     \<and> (\<forall>r. restored s r \<longrightarrow> restored (snd (clearTextHighlight_loop xs s)) r)"
proof (induction xs arbitrary: s)
  case Nil
  show ?case by simp
next
  case (Cons x xs)
  obtain p i where x: "x = (p, i)" by (cases x)
  with Cons.prems have ok: "recordOk s (p, i)" and rest: "list_all (recordOk s) xs" by simp_all
  from clear_step [OF ok, of xs] obtain s1 where
    run: "clearTextHighlight_loop ((p, i) # xs) s = clearTextHighlight_loop xs s1"
    and here: "restored s1 (p, i)"
    and keep_ok: "\<forall>r. recordOk s r \<longrightarrow> recordOk s1 r"
    and keep_restored: "\<forall>r. restored s r \<longrightarrow> restored s1 r"
    by blast
  from rest keep_ok have "list_all (recordOk s1) xs" by (auto simp: list_all_iff)
  from Cons.IH [OF this] have
    ih: "fst (clearTextHighlight_loop xs s1) = Finished"
      "list_all (restored (snd (clearTextHighlight_loop xs s1))) xs"
      "\<forall>r. restored s1 r \<longrightarrow> restored (snd (clearTextHighlight_loop xs s1)) r"
    by simp_all
  show ?case
    unfolding x run using ih here keep_restored by simp
qed

lemma clearTextHighlight_ok:
  assumes "recorded_ok s"
  shows "fst (clearTextHighlight s) = Returned"
    and "hs_highlightedTexts (snd (clearTextHighlight s)) = []"
    and "list_all (restored (snd (clearTextHighlight s))) (hs_highlightedTexts s)"
proof -
  obtain r s' where r: "clearTextHighlight_loop (hs_highlightedTexts s) s = (r, s')"
    by (cases "clearTextHighlight_loop (hs_highlightedTexts s) s")
  from clear_loop_ok [of s "hs_highlightedTexts s"] assms r
  have fin: "r = Finished" and res: "list_all (restored s') (hs_highlightedTexts s)"
    by (simp_all add: recorded_ok_def)
  from r fin have c: "clearTextHighlight s = (Returned, s'\<lparr>hs_highlightedTexts := []\<rparr>)"
    by (simp add: clearTextHighlight_def)
  show "fst (clearTextHighlight s) = Returned" using c by simp
  show "hs_highlightedTexts (snd (clearTextHighlight s)) = []" using c by simp
  show "list_all (restored (snd (clearTextHighlight s))) (hs_highlightedTexts s)"
    using c res by (simp add: recordOk_fields)
qed

section \<open>highlightText keeps the records sound\<close>

lemma highlightText_run_Some:
  assumes "highlightText_run p b bo e eo col s = Some r"
  shows "\<exists>pv layer. getPageView s (num_add p (- 1)) = Some pv \<and> pv_textLayer pv = Some layer
           \<and> r = highlightInLayer p (textContentItems layer) col b bo e eo
                   \<lparr>ctx_texts = hs_highlightedTexts s, ctx_divs = textDivs layer, ctx_calls = []\<rparr>"
  using assms by (auto simp: highlightText_run_def split: if_splits option.splits)

lemma aligned_page:
  assumes "layers_aligned s" and "getPageView s P = Some pv" and "pv_textLayer pv = Some layer"
  shows "length (textDivs layer) \<le> length (textContentItems layer)"
proof -
  from assms(2) obtain pages where pages: "hs_pages s = Some pages" "array_get pages P = Some pv"
    by (auto simp: getPageView_def split: option.splits)
  then have "pv \<in> set pages" by (auto simp: array_get_Some_iff)
  with assms(1,3) pages show ?thesis
    by (auto simp: layers_aligned_def list_all_iff split: option.splits)
qed

lemma highlightText_sound:
  assumes ok: "recorded_ok s" and al: "layers_aligned s"
    and run: "highlightText p b bo e eo col s = (Returned, s1)"
  shows "recorded_ok s1 \<and> layers_aligned s1"
proof (cases "highlightText_run p b bo e eo col s")
  case None
  with run have "s1 = s" by (simp add: highlightText_def)
  with ok al show ?thesis by simp
next
  case (Some r)
  from highlightText_run_Some [OF Some] obtain pv layer where
    pv: "getPageView s (num_add p (- 1)) = Some pv" and layer: "pv_textLayer pv = Some layer"
    and r: "r = highlightInLayer p (textContentItems layer) col b bo e eo
              \<lparr>ctx_texts = hs_highlightedTexts s, ctx_divs = textDivs layer, ctx_calls = []\<rparr>"
    by blast
  define ctx0 where "ctx0 = \<lparr>ctx_texts = hs_highlightedTexts s, ctx_divs = textDivs layer,
      ctx_calls = ([] :: highlighted list)\<rparr>"
  obtain c ctx' where cr: "r = (c, ctx')" by (cases r)
  from run Some cr have c: "c = Returned"
    and s1: "s1 = setTextDivs (num_add p (- 1)) (ctx_divs ctx')
                   (s\<lparr>hs_highlightedTexts := ctx_texts ctx'\<rparr>)"
    by (simp_all add: highlightText_def)
  from r cr c have "highlightInLayer p (textContentItems layer) col b bo e eo ctx0 = (Returned, ctx')"
    by (simp add: ctx0_def)
  then have "grows p ctx0 ctx'" by (rule highlightInLayer_grows)
  then obtain new where
    len: "length (ctx_divs ctx') = length (textDivs layer)"
    and el: "\<forall>j < length (textDivs layer). isElement (textDivs layer ! j) \<longrightarrow> isElement (ctx_divs ctx' ! j)"
    and texts: "ctx_texts ctx' = hs_highlightedTexts s @ new"
    and new: "\<forall>r \<in> set new. fst r = p
        \<and> (case array_get (ctx_divs ctx') (snd r) of None \<Rightarrow> False | Some d \<Rightarrow> isElement d)"
    unfolding grows_def ctx0_def by auto
  have pv': "getPageView (s\<lparr>hs_highlightedTexts := ctx_texts ctx'\<rparr>) (num_add p (- 1)) = Some pv"
    using pv by (simp add: getPageView_def)
  from pv have "array_get (the (hs_pages s)) (num_add p (- 1)) \<noteq> None"
    by (auto simp: getPageView_def split: option.splits)
  then have same_page: "(num_add q (- 1) = num_add p (- 1)) = (q = p)" for q
    by (rule num_add_same_index)
  have dv: "divAt s1 q j = (if q = p then array_get (ctx_divs ctx') j else divAt s q j)" for q j
    unfolding s1 by (simp add: divAt_setTextDivs [OF pv' layer] divAt_fields same_page)
  have it: "itemAt s1 q j = itemAt s q j" for q j
    unfolding s1 by (simp add: itemAt_setTextDivs divAt_fields)
  have le: "length (textDivs layer) \<le> length (textContentItems layer)"
    using aligned_page [OF al pv layer] .
  have item_p: "itemAt s p j \<noteq> None" if "array_get (ctx_divs ctx') j \<noteq> None" for j
  proof -
    from in_range_Num [OF that]
    obtain k where "j = Num k" "0 \<le> k" "k < int (length (ctx_divs ctx'))" "k < 4294967295"
      by blast
    with len le pv layer show ?thesis by (simp add: itemAt_def)
  qed
  have old: "recordOk s1 x" if "recordOk s x" for x
  proof (cases "fst x = p")
    case False
    with that show ?thesis by (simp add: recordOk_def dv it cong: option.case_cong)
  next
    case True
    with that pv layer obtain d where d: "array_get (textDivs layer) (snd x) = Some d" "isElement d"
      and i: "itemAt s p (snd x) \<noteq> None"
      by (auto simp: recordOk_def divAt_def split: option.splits)
    from d obtain k where k: "snd x = Num k" "0 \<le> k" "k < int (length (textDivs layer))"
      "k < 4294967295" "textDivs layer ! nat k = d"
      by (auto simp: array_get_Some_iff)
    then have "nat k < length (textDivs layer)" by simp
    with el k d have "isElement (ctx_divs ctx' ! nat k)" by auto
    with k len have "array_get (ctx_divs ctx') (snd x) = Some (ctx_divs ctx' ! nat k)
        \<and> isElement (ctx_divs ctx' ! nat k)" by simp
    with True i show ?thesis by (simp add: recordOk_def dv it)
  qed
  have fresh: "recordOk s1 x" if "x \<in> set new" for x
  proof -
    from new that have p: "fst x = p"
      and "(case array_get (ctx_divs ctx') (snd x) of None \<Rightarrow> False | Some d \<Rightarrow> isElement d)"
      by auto
    then obtain d where d: "array_get (ctx_divs ctx') (snd x) = Some d" "isElement d"
      by (auto split: option.splits)
    then have "itemAt s p (snd x) \<noteq> None" using item_p by simp
    with p d show ?thesis by (simp add: recordOk_def dv it)
  qed
  have "hs_highlightedTexts s1 = hs_highlightedTexts s @ new"
    unfolding s1 by (simp add: setTextDivs_fields texts)
  moreover have "list_all (recordOk s) (hs_highlightedTexts s)"
    using ok by (simp add: recorded_ok_def)
  ultimately have rec: "recorded_ok s1"
    using old fresh by (auto simp: recorded_ok_def list_all_iff)
  from pv obtain pages where pages: "hs_pages s = Some pages"
      "array_get pages (num_add p (- 1)) = Some pv"
    by (auto simp: getPageView_def split: option.splits)
  then have hp: "hs_pages s1 = Some (array_set (num_add p (- 1))
      (pv\<lparr>pv_textLayer := Some (layer\<lparr>textDivs := ctx_divs ctx'\<rparr>)\<rparr>) pages)"
    unfolding s1 using layer by (simp add: setTextDivs_def)
  obtain k where k: "num_add p (- 1) = Num k" using pages by (cases "num_add p (- 1)") auto
  have "list_all (\<lambda>pv. case pv_textLayer pv of None \<Rightarrow> True
      | Some layer \<Rightarrow> length (textDivs layer) \<le> length (textContentItems layer)) pages"
    using al pages by (simp add: layers_aligned_def)
  then have "list_all (\<lambda>pv. case pv_textLayer pv of None \<Rightarrow> True
      | Some layer \<Rightarrow> length (textDivs layer) \<le> length (textContentItems layer))
      (pages[nat k := pv\<lparr>pv_textLayer := Some (layer\<lparr>textDivs := ctx_divs ctx'\<rparr>)\<rparr>])"
    using len le by (auto simp: list_all_iff dest!: set_update_subset_insert [THEN subsetD])
  then have "layers_aligned s1"
    using hp k by (simp add: layers_aligned_def)
  with rec show ?thesis by simp
qed

text \<open>
  C6, as the code has it. Let every record of \<^verbatim>\<open>highlightedTexts\<close> name an element among
  the text divs of a page that has its text content item (as is the case for the empty list),
  and let every text div have its text content item. If \<^verbatim>\<open>highlightText\<close> then returns
  without an exception, the same holds afterwards, and a \<^verbatim>\<open>clearTextHighlight\<close> that
  follows returns, leaves \<^verbatim>\<open>highlightedTexts\<close> empty, and undoes the highlight in every
  recorded text div: the only child of the div is the text node with the string of
  \<^verbatim>\<open>textContentItems\<close> at the same index (no wrapper span is left), so that this string is
  its text content, and its class is \<^verbatim>\<open>textLayerNode\<close> or none.
\<close>

theorem highlight_then_clear_roundtrip:
  assumes "recorded_ok s" and "layers_aligned s"
    and "highlightText pageNo beginIdx beginOff endIdx endOff color s = (Returned, s1)"
  shows "recorded_ok s1 \<and> layers_aligned s1
         \<and> fst (clearTextHighlight s1) = Returned
         \<and> hs_highlightedTexts (snd (clearTextHighlight s1)) = []
         \<and> list_all (restored (snd (clearTextHighlight s1))) (hs_highlightedTexts s1)"
  using highlightText_sound [OF assms] clearTextHighlight_ok [of s1] by simp

text \<open>
  The theorem at the highlight of \<^verbatim>\<open>page=1&selection=0,2,1,3&color=Red\<close> in the opened
  PDF: four records are made and the first text div holds three pieces of its string, the
  last of them in a wrapper span, so that no recorded div is as the text layer drew it;
  clearing restores both text divs and empties the list.
\<close>

theorem highlight_then_clear_roundtrip_witness:
  "recorded_ok state_opened \<and> layers_aligned state_opened
   \<and> highlightText (Num 1) (Num 0) (Num 2) (Num 1) (Num 3) (Some ''Red'') state_opened
       = (Returned, state_after_selection)
   \<and> hs_highlightedTexts state_after_selection
       = [(Num 1, Num 0), (Num 1, Num 0), (Num 1, Num 1), (Num 1, Num 1)]
   \<and> map (divAt state_after_selection (Num 1)) [Num 0, Num 1]
       = [Some (Element [''textLayerNode''] None
                  [TextNode ''He'',
                   Element [''mod-focused'', ''begin'', ''selected'', ''pdf-plus-backlink'', ''appended'']
                     (Some ''red'') [TextNode ''llo '']]),
          Some (Element [''textLayerNode''] None
                  [Element [''mod-focused'', ''endselected'', ''pdf-plus-backlink'', ''appended'']
                     (Some ''red'') [TextNode ''wor''],
                   TextNode ''ld''])]
   \<and> \<not> list_ex (restored state_after_selection) (hs_highlightedTexts state_after_selection)
   \<and> map (divAt (snd (clearTextHighlight state_after_selection)) (Num 1)) [Num 0, Num 1]
       = [Some (Element [''textLayerNode''] None [TextNode ''Hello '']),
          Some (Element [''textLayerNode''] None [TextNode ''world''])]
   \<and> fst (clearTextHighlight state_after_selection) = Returned
   \<and> hs_highlightedTexts (snd (clearTextHighlight state_after_selection)) = []
   \<and> list_all (restored (snd (clearTextHighlight state_after_selection)))
        (hs_highlightedTexts state_after_selection)"
proof -
  have ok: "recorded_ok state_opened"
    by (simp add: recorded_ok_def state_opened_def)
  have al: "layers_aligned state_opened"
    by (simp add: layers_aligned_def state_opened_def page_rendered_def page_far_away_def)
  have "fst (highlightText (Num 1) (Num 0) (Num 2) (Num 1) (Num 3) (Some ''Red'') state_opened)
      = Returned"
    by code_simp
  then have run: "highlightText (Num 1) (Num 0) (Num 2) (Num 1) (Num 3) (Some ''Red'') state_opened
      = (Returned, state_after_selection)"
    unfolding state_after_selection_def by (metis prod.collapse)
  have texts: "hs_highlightedTexts state_after_selection
      = [(Num 1, Num 0), (Num 1, Num 0), (Num 1, Num 1), (Num 1, Num 1)]"
    by code_simp
  have divs: "map (divAt state_after_selection (Num 1)) [Num 0, Num 1]
       = [Some (Element [''textLayerNode''] None
                  [TextNode ''He'',
                   Element [''mod-focused'', ''begin'', ''selected'', ''pdf-plus-backlink'', ''appended'']
                     (Some ''red'') [TextNode ''llo '']]),
          Some (Element [''textLayerNode''] None
                  [Element [''mod-focused'', ''endselected'', ''pdf-plus-backlink'', ''appended'']
                     (Some ''red'') [TextNode ''wor''],
                   TextNode ''ld''])]"
    by code_simp
  have before: "\<not> list_ex (restored state_after_selection)
      (hs_highlightedTexts state_after_selection)"
    by code_simp
  have after: "map (divAt (snd (clearTextHighlight state_after_selection)) (Num 1)) [Num 0, Num 1]
       = [Some (Element [''textLayerNode''] None [TextNode ''Hello '']),
          Some (Element [''textLayerNode''] None [TextNode ''world''])]"
    by code_simp
  from highlight_then_clear_roundtrip [OF ok al run] ok al run texts divs before after
  show ?thesis by simp
qed

text \<open>
  C6 as stated fails: \<^verbatim>\<open>highlightText(1, 0, 0, 5, 0)\<close> on a page of two text divs records
  the index 2 before it reads \<^verbatim>\<open>textDivs[2]\<close> and throws; the \<^verbatim>\<open>clearTextHighlight\<close>
  that follows throws at that record and \<^verbatim>\<open>highlightedTexts\<close> keeps its four records.
\<close>

theorem unsound_record_counterexample:
  "hs_highlightedTexts state_after_long_selection
     = [(Num 1, Num 0), (Num 1, Num 0), (Num 1, Num 1), (Num 1, Num 2)]
   \<and> fst (clearTextHighlight state_after_long_selection) = Threw (TypeError OfUndefined)
   \<and> hs_highlightedTexts (snd (clearTextHighlight state_after_long_selection))
     = [(Num 1, Num 0), (Num 1, Num 0), (Num 1, Num 1), (Num 1, Num 2)]"
  by code_simp

section \<open>The indices of highlightText\<close>

lemma grows_range:
  "grows p ctx ctx' \<Longrightarrow> (array_get (ctx_divs ctx') n = None) = (array_get (ctx_divs ctx) n = None)"
  by (rule array_get_None_length) (simp add: grows_def)

lemma grows_text_node:
  assumes "grows p a b" and "array_get (ctx_divs b) n = Some d" and "\<not> isElement d"
  shows "\<exists>d'. array_get (ctx_divs a) n = Some d' \<and> \<not> isElement d'"
proof -
  from assms(1) have len: "length (ctx_divs b) = length (ctx_divs a)"
    and el: "\<forall>j < length (ctx_divs a). isElement (ctx_divs a ! j) \<longrightarrow> isElement (ctx_divs b ! j)"
    by (simp_all add: grows_def)
  from assms(2) obtain k where k: "n = Num k" "0 \<le> k" "k < int (length (ctx_divs b))"
    "k < 4294967295" "ctx_divs b ! nat k = d"
    by (auto simp: array_get_Some_iff)
  then have "nat k < length (ctx_divs a)" using len by simp
  with el k assms(3) have "\<not> isElement (ctx_divs a ! nat k)" by auto
  moreover have "array_get (ctx_divs a) n = Some (ctx_divs a ! nat k)" using k len by simp
  ultimately show ?thesis by simp
qed

lemma andThen_not_thrown:
  assumes "fst r \<noteq> Threw x" and "\<And>c. r = (Returned, c) \<Longrightarrow> fst (g c) \<noteq> Threw x"
  shows "fst (andThen r g) \<noteq> Threw x"
  using assms by (cases r) (auto simp: andThen_def split: completion.splits)

lemma andThen_thrown: "fst r = Threw x \<Longrightarrow> andThen r g = r"
  by (simp add: andThen_def)

lemma andThen_returned: "r = (Returned, c) \<Longrightarrow> andThen r g = g c"
  by (simp add: andThen_def)

lemma divideAndWrapText_fst:
  "fst (divideAndWrapText p items col idx from to cn ctx)
     = (if array_get (ctx_divs ctx) idx \<noteq> None \<and> array_get items idx \<noteq> None then Returned
        else Threw (TypeError OfUndefined))"
  by (auto simp: divideAndWrapText_def Let_def array_get_set split: option.splits)

lemma divideAndWrapTextStart_fst:
  "fst (divideAndWrapTextStart p items col idx off cn ctx)
     = (if array_get (ctx_divs ctx) idx \<noteq> None \<and> array_get items idx \<noteq> None then Returned
        else Threw (TypeError OfUndefined))"
  by (auto simp: divideAndWrapTextStart_def divideAndWrapText_fst array_get_set
      split: option.splits)

text \<open>What the loop over the middle divs may throw.\<close>

lemma middleDivs_fst:
  "fst (middleDivs p col i e ctx) = Returned
   \<or> fst (middleDivs p col i e ctx) = Threw (TypeError OfUndefined)
   \<or> fst (middleDivs p col i e ctx) = Threw (TypeError OfTextNode)"
proof (induction p col i e ctx rule: middleDivs.induct)
  case (1 p col i e ctx)
  show ?case
  proof (cases "num_less i e")
    case False
    then show ?thesis by (subst (1 2 3) middleDivs.simps) simp
  next
    case True
    define ctx1 where "ctx1 = ctx\<lparr>ctx_texts := ctx_texts ctx @ [(p, i)]\<rparr>"
    show ?thesis
    proof (cases "array_get (ctx_divs ctx1) i")
      case None
      with True show ?thesis by (subst (1 2 3) middleDivs.simps) (simp add: ctx1_def)
    next
      case (Some d)
      show ?thesis
      proof (cases d)
        case (TextNode t)
        with True Some show ?thesis by (subst (1 2 3) middleDivs.simps) (simp add: ctx1_def)
      next
        case (Element cls c ch)
        from "1.IH" [OF True ctx1_def Some Element] True Some Element
        show ?thesis by (subst (1 2 3) middleDivs.simps) (simp add: ctx1_def)
      qed
    qed
  qed
qed

lemma middleDivs_text_node:
  "fst (middleDivs p col i e ctx) = Threw (TypeError OfTextNode)
     \<Longrightarrow> \<exists>n d. array_get (ctx_divs ctx) n = Some d \<and> \<not> isElement d"
proof (induction p col i e ctx rule: middleDivs.induct)
  case (1 p col i e ctx)
  show ?case
  proof (cases "num_less i e")
    case False
    with "1.prems" show ?thesis by (subst (asm) middleDivs.simps) simp
  next
    case True
    define ctx1 where "ctx1 = ctx\<lparr>ctx_texts := ctx_texts ctx @ [(p, i)]\<rparr>"
    show ?thesis
    proof (cases "array_get (ctx_divs ctx1) i")
      case None
      with True "1.prems" show ?thesis
        by (subst (asm) middleDivs.simps) (simp add: ctx1_def)
    next
      case (Some d)
      show ?thesis
      proof (cases d)
        case (TextNode t)
        with Some have "array_get (ctx_divs ctx) i = Some d \<and> \<not> isElement d"
          by (simp add: ctx1_def)
        then show ?thesis by blast
      next
        case (Element cls c ch)
        define d' where "d' = Element
            (classList_add [''mod-focused'', ''middle'', ''selected'', ''pdf-plus-backlink''] cls)
            (if truthy col then Some (toLowerCase (nonNull col)) else c) ch"
        define ctx2 where "ctx2 = ctx1\<lparr>ctx_divs := array_set i d' (ctx_divs ctx1),
            ctx_calls := ctx_calls ctx1 @ [WholeDiv i]\<rparr>"
        have run: "fst (middleDivs p col (num_add i 1) e ctx2) = Threw (TypeError OfTextNode)"
          using "1.prems" True Some Element
          by (subst (asm) middleDivs.simps) (simp add: ctx1_def ctx2_def d'_def)
        have "\<exists>n d. array_get (ctx_divs ctx2) n = Some d \<and> \<not> isElement d"
          using "1.IH" [OF True ctx1_def Some Element] run
          by (simp add: ctx2_def d'_def)
        then obtain n x where x: "array_get (ctx_divs ctx2) n = Some x" "\<not> isElement x" by blast
        have "grows p ctx ctx2"
        proof (rule grows_set)
          show "array_get (ctx_divs ctx) i \<noteq> None" using Some by (simp add: ctx1_def)
          show "isElement d'" by (simp add: d'_def)
          show "ctx_texts ctx2 = ctx_texts ctx @ [(p, i)]" by (simp add: ctx2_def ctx1_def)
          show "ctx_divs ctx2 = array_set i d' (ctx_divs ctx)" by (simp add: ctx2_def ctx1_def)
        qed
        from grows_text_node [OF this x] show ?thesis by blast
      qed
    qed
  qed
qed

lemma middleDivs_no_undefined:
  assumes "\<exists>j. i = Num j \<and> 0 \<le> j"
    and "\<exists>m. e = Num m \<and> m \<le> int (length (ctx_divs ctx)) \<and> m \<le> 4294967295"
  shows "fst (middleDivs p col i e ctx) \<noteq> Threw (TypeError OfUndefined)"
  using assms
proof (induction p col i e ctx rule: middleDivs.induct)
  case (1 p col i e ctx)
  from "1.prems" obtain j m where j: "i = Num j" "0 \<le> j"
    and m: "e = Num m" "m \<le> int (length (ctx_divs ctx))" "m \<le> 4294967295" by blast
  show ?case
  proof (cases "num_less i e")
    case False
    then show ?thesis by (subst middleDivs.simps) simp
  next
    case True
    define ctx1 where "ctx1 = ctx\<lparr>ctx_texts := ctx_texts ctx @ [(p, i)]\<rparr>"
    from True j m have jm: "j < m" by simp
    with m have "j < int (length (ctx_divs ctx))" "j < 4294967295" by simp_all
    with j obtain d where d: "array_get (ctx_divs ctx1) i = Some d"
      by (simp add: ctx1_def)
    show ?thesis
    proof (cases d)
      case (TextNode t)
      with True d show ?thesis
        by (subst middleDivs.simps) (simp add: ctx1_def)
    next
      case (Element cls c ch)
      have "fst (middleDivs p col (num_add i 1) e
          (ctx1\<lparr>ctx_divs := array_set i
             (Element (classList_add
                 [''mod-focused'', ''middle'', ''selected'', ''pdf-plus-backlink''] cls)
                (if truthy col then Some (toLowerCase (nonNull col)) else c) ch)
             (ctx_divs ctx1),
           ctx_calls := ctx_calls ctx1 @ [WholeDiv i]\<rparr>)) \<noteq> Threw (TypeError OfUndefined)"
      proof (rule "1.IH" [OF True ctx1_def d Element])
        have "\<bar>j + 1\<bar> < 9007199254740992" using j jm m by simp
        then have "toDouble (j + 1) = Num (j + 1)" by (rule toDouble_small)
        then show "\<exists>j. num_add i 1 = Num j \<and> 0 \<le> j" using j by simp
        show "\<exists>ma. e = Num ma \<and> ma \<le> int (length (ctx_divs
            (ctx1\<lparr>ctx_divs := array_set i
               (Element (classList_add
                   [''mod-focused'', ''middle'', ''selected'', ''pdf-plus-backlink''] cls)
                  (if truthy col then Some (toLowerCase (nonNull col)) else c) ch)
               (ctx_divs ctx1),
             ctx_calls := ctx_calls ctx1 @ [WholeDiv i]\<rparr>))) \<and> ma \<le> 4294967295"
          using m by (simp add: length_array_set ctx1_def)
      qed
      with True d Element show ?thesis
        by (subst middleDivs.simps) (simp add: ctx1_def)
    qed
  qed
qed

lemma andThen_pair:
  "andThen (Returned, c) g = g c"
  "andThen (Threw x, c) g = (Threw x, c)"
  by (simp_all add: andThen_def)

lemma num_strict_eq_same: "num_strict_eq a b \<Longrightarrow> a = b"
  by (cases a; cases b) simp_all

lemma highlightInLayer_no_undefined:
  assumes b: "array_get (ctx_divs ctx) b \<noteq> None" "array_get items b \<noteq> None"
    and e: "array_get (ctx_divs ctx) e \<noteq> None" "array_get items e \<noteq> None"
  shows "fst (highlightInLayer p items col b bo e eo ctx) \<noteq> Threw (TypeError OfUndefined)"
  unfolding highlightInLayer_def
proof (rule andThen_not_thrown, rule andThen_not_thrown)
  show "fst (divideAndWrapTextStart p items col b bo None ctx) \<noteq> Threw (TypeError OfUndefined)"
    using divideAndWrapTextStart_in_range [OF b] by simp
next
  fix c1 assume c1: "divideAndWrapTextStart p items col b bo None ctx = (Returned, c1)"
  then have g1: "grows p ctx c1" by (rule divideAndWrapTextStart_grows)
  have b1: "array_get (ctx_divs c1) b \<noteq> None" and e1: "array_get (ctx_divs c1) e \<noteq> None"
    using b e grows_range [OF g1] by simp_all
  show "fst (if num_strict_eq b e then
               divideAndWrapText p items col b bo (Some eo)
                 (Some ''mod-focused selected pdf-plus-backlink'') c1
             else
               andThen
                 (andThen
                    (divideAndWrapText p items col b bo None
                       (Some ''mod-focused begin selected pdf-plus-backlink'') c1)
                    (middleDivs p col (num_add b 1) e))
                 (divideAndWrapTextStart p items col e eo
                    (Some ''mod-focused endselected pdf-plus-backlink'')))
         \<noteq> Threw (TypeError OfUndefined)"
  proof (cases "num_strict_eq b e")
    case True
    then show ?thesis using divideAndWrapText_in_range [OF b1 b(2)] by simp
  next
    case False
    have "fst (andThen
                 (andThen
                    (divideAndWrapText p items col b bo None
                       (Some ''mod-focused begin selected pdf-plus-backlink'') c1)
                    (middleDivs p col (num_add b 1) e))
                 (divideAndWrapTextStart p items col e eo
                    (Some ''mod-focused endselected pdf-plus-backlink'')))
         \<noteq> Threw (TypeError OfUndefined)"
    proof (rule andThen_not_thrown, rule andThen_not_thrown)
      show "fst (divideAndWrapText p items col b bo None
                       (Some ''mod-focused begin selected pdf-plus-backlink'') c1)
          \<noteq> Threw (TypeError OfUndefined)"
        using divideAndWrapText_in_range [OF b1 b(2)] by simp
    next
      fix c2 assume c2: "divideAndWrapText p items col b bo None
                       (Some ''mod-focused begin selected pdf-plus-backlink'') c1 = (Returned, c2)"
      then have g2: "grows p c1 c2" by (rule divideAndWrapText_grows)
      from in_range_Num [OF b1] obtain k where k: "b = Num k" "0 \<le> k" "k < 4294967295"
        by blast
      from e1 grows_range [OF g2] have "array_get (ctx_divs c2) e \<noteq> None" by simp
      from in_range_Num [OF this] obtain m where m: "e = Num m" "m < int (length (ctx_divs c2))"
        "m < 4294967295" by blast
      show "fst (middleDivs p col (num_add b 1) e c2) \<noteq> Threw (TypeError OfUndefined)"
      proof (rule middleDivs_no_undefined)
        have "\<bar>k + 1\<bar> < 9007199254740992" using k by simp
        then have "toDouble (k + 1) = Num (k + 1)" by (rule toDouble_small)
        then show "\<exists>j. num_add b 1 = Num j \<and> 0 \<le> j" using k by simp
        show "\<exists>m. e = Num m \<and> m \<le> int (length (ctx_divs c2)) \<and> m \<le> 4294967295"
          using m by simp
      qed
    next
      fix c3 assume "andThen
            (divideAndWrapText p items col b bo None
               (Some ''mod-focused begin selected pdf-plus-backlink'') c1)
            (middleDivs p col (num_add b 1) e) = (Returned, c3)"
      from andThen_Returned [OF this] obtain c2 where
        c2: "divideAndWrapText p items col b bo None
               (Some ''mod-focused begin selected pdf-plus-backlink'') c1 = (Returned, c2)"
        and c3: "middleDivs p col (num_add b 1) e c2 = (Returned, c3)" by blast
      have "grows p c1 c2" using c2 by (rule divideAndWrapText_grows)
      moreover have "grows p c2 c3" using c3 by (rule middleDivs_grows)
      ultimately have "array_get (ctx_divs c3) e \<noteq> None"
        using e1 grows_range by simp
      then show "fst (divideAndWrapTextStart p items col e eo
            (Some ''mod-focused endselected pdf-plus-backlink'') c3)
          \<noteq> Threw (TypeError OfUndefined)"
        using divideAndWrapTextStart_in_range [OF _ e(2)] by simp
    qed
    with False show ?thesis by simp
  qed
next
  fix c4 assume "andThen (divideAndWrapTextStart p items col b bo None ctx)
          (\<lambda>c. if num_strict_eq b e then
               divideAndWrapText p items col b bo (Some eo)
                 (Some ''mod-focused selected pdf-plus-backlink'') c
             else
               andThen
                 (andThen
                    (divideAndWrapText p items col b bo None
                       (Some ''mod-focused begin selected pdf-plus-backlink'') c)
                    (middleDivs p col (num_add b 1) e))
                 (divideAndWrapTextStart p items col e eo
                    (Some ''mod-focused endselected pdf-plus-backlink''))) = (Returned, c4)"
  from andThen_Returned [OF this] obtain c1 where
    c1: "divideAndWrapTextStart p items col b bo None ctx = (Returned, c1)"
    and mid: "(if num_strict_eq b e then
               divideAndWrapText p items col b bo (Some eo)
                 (Some ''mod-focused selected pdf-plus-backlink'') c1
             else
               andThen
                 (andThen
                    (divideAndWrapText p items col b bo None
                       (Some ''mod-focused begin selected pdf-plus-backlink'') c1)
                    (middleDivs p col (num_add b 1) e))
                 (divideAndWrapTextStart p items col e eo
                    (Some ''mod-focused endselected pdf-plus-backlink''))) = (Returned, c4)"
    by blast
  have g1: "grows p ctx c1" using c1 by (rule divideAndWrapTextStart_grows)
  have g4: "grows p c1 c4"
  proof (cases "num_strict_eq b e")
    case True
    with mid show ?thesis by (simp add: divideAndWrapText_grows)
  next
    case False
    with mid obtain c2a c2b where
      a: "divideAndWrapText p items col b bo None
            (Some ''mod-focused begin selected pdf-plus-backlink'') c1 = (Returned, c2a)"
      and m: "middleDivs p col (num_add b 1) e c2a = (Returned, c2b)"
      and z: "divideAndWrapTextStart p items col e eo
            (Some ''mod-focused endselected pdf-plus-backlink'') c2b = (Returned, c4)"
      by (auto dest!: andThen_Returned)
    have "grows p c1 c2a" using a by (rule divideAndWrapText_grows)
    moreover have "grows p c2a c2b" using m by (rule middleDivs_grows)
    moreover have "grows p c2b c4" using z by (rule divideAndWrapTextStart_grows)
    ultimately show ?thesis by (meson grows_trans)
  qed
  have "array_get (ctx_divs c4) e \<noteq> None"
    using e(1) grows_range [OF g1] grows_range [OF g4] by simp
  then show "fst (divideAndWrapText p items col e eo None None c4) \<noteq> Threw (TypeError OfUndefined)"
    using divideAndWrapText_in_range [OF _ e(2)] by simp
qed

text \<open>
  With an index outside the text divs or the text content items, the statements of
  \<^verbatim>\<open>highlightText\<close> throw: at the read outside the array, or before it in the loop at a
  text div that is a text node.
\<close>

lemma highlightInLayer_out_of_range:
  assumes "\<not> (array_get (ctx_divs ctx) b \<noteq> None \<and> array_get items b \<noteq> None
      \<and> array_get (ctx_divs ctx) e \<noteq> None \<and> array_get items e \<noteq> None)"
  shows "fst (highlightInLayer p items col b bo e eo ctx) = Threw (TypeError OfUndefined)
         \<or> (fst (highlightInLayer p items col b bo e eo ctx) = Threw (TypeError OfTextNode)
            \<and> (\<exists>n d. array_get (ctx_divs ctx) n = Some d \<and> \<not> isElement d))"
proof (cases "array_get (ctx_divs ctx) b \<noteq> None \<and> array_get items b \<noteq> None")
  case False
  then have "fst (divideAndWrapTextStart p items col b bo None ctx) = Threw (TypeError OfUndefined)"
    by (simp only: divideAndWrapTextStart_fst if_False)
  then have "fst (highlightInLayer p items col b bo e eo ctx) = Threw (TypeError OfUndefined)"
    by (simp add: highlightInLayer_def andThen_def)
  then show ?thesis by simp
next
  case True
  then have b: "array_get (ctx_divs ctx) b \<noteq> None" "array_get items b \<noteq> None" by simp_all
  with assms have e: "\<not> (array_get (ctx_divs ctx) e \<noteq> None \<and> array_get items e \<noteq> None)"
    by simp
  with b have ne: "\<not> num_strict_eq b e" by (auto dest: num_strict_eq_same)
  from True have "fst (divideAndWrapTextStart p items col b bo None ctx) = Returned"
    by (simp add: divideAndWrapTextStart_fst)
  then obtain c1 where c1: "divideAndWrapTextStart p items col b bo None ctx = (Returned, c1)"
    by (metis prod.collapse)
  then have g1: "grows p ctx c1" by (rule divideAndWrapTextStart_grows)
  have "array_get (ctx_divs c1) b \<noteq> None" using b(1) grows_range [OF g1] by simp
  with b(2) have "fst (divideAndWrapText p items col b bo None
      (Some ''mod-focused begin selected pdf-plus-backlink'') c1) = Returned"
    by (simp add: divideAndWrapText_fst)
  then obtain c2 where c2: "divideAndWrapText p items col b bo None
      (Some ''mod-focused begin selected pdf-plus-backlink'') c1 = (Returned, c2)"
    by (metis prod.collapse)
  then have g2: "grows p c1 c2" by (rule divideAndWrapText_grows)
  define r3 where "r3 = middleDivs p col (num_add b 1) e c2"
  have whole: "highlightInLayer p items col b bo e eo ctx
      = andThen (andThen r3 (divideAndWrapTextStart p items col e eo
                    (Some ''mod-focused endselected pdf-plus-backlink'')))
          (divideAndWrapText p items col e eo None None)"
    by (simp add: highlightInLayer_def c1 c2 ne andThen_pair r3_def)
  from middleDivs_fst [of p col "num_add b 1" e c2]
  consider (ret) "fst r3 = Returned" | (undef) "fst r3 = Threw (TypeError OfUndefined)"
    | (node) "fst r3 = Threw (TypeError OfTextNode)"
    unfolding r3_def by blast
  then show ?thesis
  proof cases
    case undef
    then show ?thesis by (simp add: whole andThen_def)
  next
    case node
    then have t: "fst (highlightInLayer p items col b bo e eo ctx) = Threw (TypeError OfTextNode)"
      by (simp add: whole andThen_def)
    from node obtain n d where d: "array_get (ctx_divs c2) n = Some d" "\<not> isElement d"
      unfolding r3_def by (blast dest: middleDivs_text_node)
    from grows_text_node [OF g2 d] obtain d1 where
      d1: "array_get (ctx_divs c1) n = Some d1" "\<not> isElement d1" by blast
    from grows_text_node [OF g1 d1] t show ?thesis by blast
  next
    case ret
    then obtain c3 where c3: "middleDivs p col (num_add b 1) e c2 = (Returned, c3)"
      unfolding r3_def by (metis prod.collapse)
    then have g3: "grows p c2 c3" by (rule middleDivs_grows)
    have "(array_get (ctx_divs c3) e = None) = (array_get (ctx_divs ctx) e = None)"
      using grows_range [OF g1] grows_range [OF g2] grows_range [OF g3] by simp
    with e have "\<not> (array_get (ctx_divs c3) e \<noteq> None \<and> array_get items e \<noteq> None)" by simp
    then have "fst (divideAndWrapTextStart p items col e eo
        (Some ''mod-focused endselected pdf-plus-backlink'') c3) = Threw (TypeError OfUndefined)"
      by (simp only: divideAndWrapTextStart_fst if_False)
    with c3 show ?thesis by (simp add: whole andThen_def r3_def)
  qed
qed

lemma textLayerReady_run:
  assumes "textLayerReady s p"
  shows "\<exists>pv layer. getPageView s (num_add p (- 1)) = Some pv \<and> pv_textLayer pv = Some layer
      \<and> highlightText_run p b bo e eo col s
          = Some (highlightInLayer p (textContentItems layer) col b bo e eo
                   \<lparr>ctx_texts = hs_highlightedTexts s, ctx_divs = textDivs layer, ctx_calls = []\<rparr>)"
  using assms
  by (auto simp: textLayerReady_def highlightText_run_def split: option.splits)

lemma not_textLayerReady_run:
  "\<not> textLayerReady s p \<Longrightarrow> highlightText_run p b bo e eo col s = None"
  by (auto simp: textLayerReady_def highlightText_run_def split: option.splits)

lemma highlightText_not_ready:
  "\<not> textLayerReady s p \<Longrightarrow> highlightText p b bo e eo col s = (Returned, s)"
  by (simp add: highlightText_def not_textLayerReady_run)

lemma highlightAnnotation_not_ready:
  "\<not> annotationLayerReady s p \<Longrightarrow> highlightAnnotation p ident s = s"
  by (auto simp: annotationLayerReady_def highlightAnnotation_def split: option.splits)

lemma processAnnotation_not_ready:
  "\<not> annotationLayerReady s p \<Longrightarrow> processAnnotation p ident s = (Returned, None)"
  by (auto simp: annotationLayerReady_def processAnnotation_def split: option.splits)

lemma processAnnotation_no_TypeError:
  "fst (processAnnotation p ident s) \<noteq> Threw (TypeError c)"
  by (auto simp: processAnnotation_def split: option.splits queried.splits)

lemma highlightText_no_undefined:
  assumes "divAt s p b \<noteq> None" "itemAt s p b \<noteq> None" "divAt s p e \<noteq> None" "itemAt s p e \<noteq> None"
  shows "fst (highlightText p b bo e eo col s) \<noteq> Threw (TypeError OfUndefined)"
proof (cases "highlightText_run p b bo e eo col s")
  case None
  then show ?thesis by (simp add: highlightText_def)
next
  case (Some r)
  from highlightText_run_Some [OF Some] obtain pv layer where
    pv: "getPageView s (num_add p (- 1)) = Some pv" and layer: "pv_textLayer pv = Some layer"
    and r: "r = highlightInLayer p (textContentItems layer) col b bo e eo
              \<lparr>ctx_texts = hs_highlightedTexts s, ctx_divs = textDivs layer, ctx_calls = []\<rparr>"
    by blast
  from assms pv layer have
    "array_get (textDivs layer) b \<noteq> None" "array_get (textContentItems layer) b \<noteq> None"
    "array_get (textDivs layer) e \<noteq> None" "array_get (textContentItems layer) e \<noteq> None"
    by (simp_all add: divAt_def itemAt_def)
  then have "fst r \<noteq> Threw (TypeError OfUndefined)"
    unfolding r by (intro highlightInLayer_no_undefined) simp_all
  with Some show ?thesis by (simp add: highlightText_def)
qed

lemma highlightText_out_of_range:
  assumes ready: "textLayerReady s p"
    and out: "\<not> (divAt s p b \<noteq> None \<and> itemAt s p b \<noteq> None
        \<and> divAt s p e \<noteq> None \<and> itemAt s p e \<noteq> None)"
  shows "fst (highlightText p b bo e eo col s) = Threw (TypeError OfUndefined)
         \<or> (fst (highlightText p b bo e eo col s) = Threw (TypeError OfTextNode)
            \<and> (\<exists>n d. divAt s p n = Some d \<and> \<not> isElement d))"
proof -
  from textLayerReady_run [OF ready, of b bo e eo col] obtain pv layer where
    pv: "getPageView s (num_add p (- 1)) = Some pv" and layer: "pv_textLayer pv = Some layer"
    and run: "highlightText_run p b bo e eo col s
          = Some (highlightInLayer p (textContentItems layer) col b bo e eo
                   \<lparr>ctx_texts = hs_highlightedTexts s, ctx_divs = textDivs layer, ctx_calls = []\<rparr>)"
    by blast
  define ctx0 where "ctx0 = \<lparr>ctx_texts = hs_highlightedTexts s, ctx_divs = textDivs layer,
      ctx_calls = ([] :: highlighted list)\<rparr>"
  have dv: "divAt s p n = array_get (ctx_divs ctx0) n" for n
    using pv layer by (simp add: divAt_def ctx0_def)
  have it: "itemAt s p n = array_get (textContentItems layer) n" for n
    using pv layer by (simp add: itemAt_def)
  have fst_eq: "fst (highlightText p b bo e eo col s)
      = fst (highlightInLayer p (textContentItems layer) col b bo e eo ctx0)"
    using run by (simp add: highlightText_def ctx0_def)
  from out have "\<not> (array_get (ctx_divs ctx0) b \<noteq> None \<and> array_get (textContentItems layer) b \<noteq> None
      \<and> array_get (ctx_divs ctx0) e \<noteq> None \<and> array_get (textContentItems layer) e \<noteq> None)"
    by (simp add: dv it)
  from highlightInLayer_out_of_range [OF this, of p col bo eo]
  show ?thesis by (simp add: fst_eq dv)
qed

text \<open>
  C2, as the code has it. The three operations test the page only: unless the page number
  lies between 1 and the page count and the page view has its layer and is loaded,
  \<^verbatim>\<open>highlightText\<close>, \<^verbatim>\<open>highlightAnnotation\<close> and \<^verbatim>\<open>processAnnotation\<close> leave everything as
  it is. \<^verbatim>\<open>processAnnotation\<close> reads no array and throws no \<^verbatim>\<open>TypeError\<close>. The begin and
  end indices of \<^verbatim>\<open>highlightText\<close> are not checked. When both lie within the text divs and
  the text content items of the page, no read outside an array happens (no \<^verbatim>\<open>TypeError\<close>
  from \<^verbatim>\<open>undefined\<close>). When the page passes the test and one of the two indices lies outside
  the text divs or outside the text content items, the call throws: the \<^verbatim>\<open>TypeError\<close> of
  the read outside the array, or, before it gets there, the \<^verbatim>\<open>TypeError\<close> of the loop at a
  text div that is a text node.
\<close>

theorem highlight_operations_bounds:
  "(\<not> textLayerReady s pageNo \<longrightarrow>
      highlightText pageNo beginIdx beginOff endIdx endOff color s = (Returned, s))
   \<and> (\<not> annotationLayerReady s pageNo \<longrightarrow>
      highlightAnnotation pageNo ident s = s
      \<and> processAnnotation pageNo ident s = (Returned, None))
   \<and> fst (processAnnotation pageNo ident s) \<noteq> Threw (TypeError c)
   \<and> (divAt s pageNo beginIdx \<noteq> None \<and> itemAt s pageNo beginIdx \<noteq> None
      \<and> divAt s pageNo endIdx \<noteq> None \<and> itemAt s pageNo endIdx \<noteq> None \<longrightarrow>
      fst (highlightText pageNo beginIdx beginOff endIdx endOff color s)
        \<noteq> Threw (TypeError OfUndefined))
   \<and> (textLayerReady s pageNo
      \<and> \<not> (divAt s pageNo beginIdx \<noteq> None \<and> itemAt s pageNo beginIdx \<noteq> None
           \<and> divAt s pageNo endIdx \<noteq> None \<and> itemAt s pageNo endIdx \<noteq> None) \<longrightarrow>
      fst (highlightText pageNo beginIdx beginOff endIdx endOff color s)
        = Threw (TypeError OfUndefined)
      \<or> (fst (highlightText pageNo beginIdx beginOff endIdx endOff color s)
            = Threw (TypeError OfTextNode)
         \<and> (\<exists>n d. divAt s pageNo n = Some d \<and> \<not> isElement d)))"
proof (intro conjI impI)
  assume "\<not> textLayerReady s pageNo"
  then show "highlightText pageNo beginIdx beginOff endIdx endOff color s = (Returned, s)"
    by (rule highlightText_not_ready)
next
  assume g: "\<not> annotationLayerReady s pageNo"
  then show "highlightAnnotation pageNo ident s = s"
    by (rule highlightAnnotation_not_ready)
  from g show "processAnnotation pageNo ident s = (Returned, None)"
    by (rule processAnnotation_not_ready)
next
  show "fst (processAnnotation pageNo ident s) \<noteq> Threw (TypeError c)"
    by (rule processAnnotation_no_TypeError)
next
  assume "divAt s pageNo beginIdx \<noteq> None \<and> itemAt s pageNo beginIdx \<noteq> None
      \<and> divAt s pageNo endIdx \<noteq> None \<and> itemAt s pageNo endIdx \<noteq> None"
  then show "fst (highlightText pageNo beginIdx beginOff endIdx endOff color s)
        \<noteq> Threw (TypeError OfUndefined)"
    using highlightText_no_undefined by blast
next
  assume "textLayerReady s pageNo
      \<and> \<not> (divAt s pageNo beginIdx \<noteq> None \<and> itemAt s pageNo beginIdx \<noteq> None
           \<and> divAt s pageNo endIdx \<noteq> None \<and> itemAt s pageNo endIdx \<noteq> None)"
  then show "fst (highlightText pageNo beginIdx beginOff endIdx endOff color s)
        = Threw (TypeError OfUndefined)
      \<or> (fst (highlightText pageNo beginIdx beginOff endIdx endOff color s)
            = Threw (TypeError OfTextNode)
         \<and> (\<exists>n d. divAt s pageNo n = Some d \<and> \<not> isElement d))"
    using highlightText_out_of_range by blast
qed

text \<open>
  The theorem in the opened PDF of two pages, the first one rendered with two text divs and
  the second one far from the viewport: at page number 3 and at page 2; at the indices 0 and 1
  of page 1; at the begin index 5 of page 1; at the end index 5 of page 1; and at the end
  index 5 when the second text div of page 1 is a text node.
\<close>

theorem highlight_operations_bounds_witness:
  "highlightText (Num 3) (Num 0) (Num 0) (Num 1) (Num 0) None state_opened = (Returned, state_opened)
   \<and> highlightText (Num 2) (Num 0) (Num 0) (Num 1) (Num 0) None state_opened
       = (Returned, state_opened)
   \<and> highlightAnnotation (Num 2) ''12R'' state_opened = state_opened
   \<and> processAnnotation (Num 2) ''12R'' state_opened = (Returned, None)
   \<and> fst (processAnnotation (Num 1) ''12R'' state_opened) \<noteq> Threw (TypeError OfUndefined)
   \<and> fst (highlightText (Num 1) (Num 0) (Num 2) (Num 1) (Num 3) (Some ''Red'') state_opened)
       \<noteq> Threw (TypeError OfUndefined)
   \<and> fst (highlightText (Num 1) (Num 5) (Num 0) (Num 6) (Num 0) None state_opened)
       = Threw (TypeError OfUndefined)
   \<and> fst (highlightText (Num 1) (Num 0) (Num 0) (Num 5) (Num 0) None state_opened)
       = Threw (TypeError OfUndefined)
   \<and> fst (highlightText (Num 1) (Num 0) (Num 0) (Num 5) (Num 0) None
        (state_opened\<lparr>hs_pages := Some [page_rendered\<lparr>pv_textLayer := Some
           \<lparr>textDivs = [Element [''textLayerNode''] None [TextNode ''Hello ''], TextNode ''world''],
            textContentItems = [''Hello '', ''world'']\<rparr>\<rparr>]\<rparr>))
       = Threw (TypeError OfTextNode)"
proof -
  define s2 where "s2 = state_opened\<lparr>hs_pages := Some [page_rendered\<lparr>pv_textLayer := Some
           \<lparr>textDivs = [Element [''textLayerNode''] None [TextNode ''Hello ''], TextNode ''world''],
            textContentItems = [''Hello '', ''world'']\<rparr>\<rparr>]\<rparr>"
  have n3: "\<not> textLayerReady state_opened (Num 3)"
    by (simp add: textLayerReady_def state_opened_def)
  have n2: "\<not> textLayerReady state_opened (Num 2)"
    by (simp add: textLayerReady_def getPageView_def state_opened_def page_far_away_def
        toDouble_def)
  have a2: "\<not> annotationLayerReady state_opened (Num 2)"
    by (simp add: annotationLayerReady_def getPageView_def state_opened_def page_far_away_def
        toDouble_def)
  have r: "divAt state_opened (Num 1) (Num 0) \<noteq> None \<and> itemAt state_opened (Num 1) (Num 0) \<noteq> None
      \<and> divAt state_opened (Num 1) (Num 1) \<noteq> None \<and> itemAt state_opened (Num 1) (Num 1) \<noteq> None"
    by (simp add: divAt_def itemAt_def getPageView_def state_opened_def page_rendered_def
        toDouble_def)
  have t1: "textLayerReady state_opened (Num 1)"
    by (simp add: textLayerReady_def getPageView_def state_opened_def page_rendered_def
        toDouble_def)
  have o5: "divAt state_opened (Num 1) (Num 5) = None"
    by (simp add: divAt_def getPageView_def state_opened_def page_rendered_def toDouble_def)
  have t2: "textLayerReady s2 (Num 1)"
    by (simp add: s2_def textLayerReady_def getPageView_def state_opened_def page_rendered_def
        toDouble_def)
  have o2: "divAt s2 (Num 1) (Num 5) = None"
    by (simp add: s2_def divAt_def getPageView_def state_opened_def page_rendered_def
        toDouble_def)
  have b5: "fst (highlightText (Num 1) (Num 5) (Num 0) (Num 6) (Num 0) None state_opened)
      \<noteq> Threw (TypeError OfTextNode)"
    by code_simp
  have e5: "fst (highlightText (Num 1) (Num 0) (Num 0) (Num 5) (Num 0) None state_opened)
      \<noteq> Threw (TypeError OfTextNode)"
    by code_simp
  have x5: "fst (highlightText (Num 1) (Num 0) (Num 0) (Num 5) (Num 0) None s2)
      \<noteq> Threw (TypeError OfUndefined)"
    unfolding s2_def by code_simp
  from highlight_operations_bounds
      [of state_opened "Num 3" "Num 0" "Num 0" "Num 1" "Num 0" None] n3
  have 1: "highlightText (Num 3) (Num 0) (Num 0) (Num 1) (Num 0) None state_opened
        = (Returned, state_opened)"
    by blast
  from highlight_operations_bounds
      [of state_opened "Num 2" "Num 0" "Num 0" "Num 1" "Num 0" None "''12R''"] n2 a2
  have 2: "highlightText (Num 2) (Num 0) (Num 0) (Num 1) (Num 0) None state_opened
        = (Returned, state_opened)
      \<and> highlightAnnotation (Num 2) ''12R'' state_opened = state_opened
      \<and> processAnnotation (Num 2) ''12R'' state_opened = (Returned, None)"
    by blast
  from highlight_operations_bounds
      [of state_opened "Num 1" "Num 0" "Num 2" "Num 1" "Num 3" "Some ''Red''" "''12R''"
          OfUndefined] r
  have 3: "fst (processAnnotation (Num 1) ''12R'' state_opened) \<noteq> Threw (TypeError OfUndefined)
      \<and> fst (highlightText (Num 1) (Num 0) (Num 2) (Num 1) (Num 3) (Some ''Red'') state_opened)
       \<noteq> Threw (TypeError OfUndefined)"
    by blast
  from highlight_operations_bounds
      [of state_opened "Num 1" "Num 5" "Num 0" "Num 6" "Num 0" None] t1 o5 b5
  have 4: "fst (highlightText (Num 1) (Num 5) (Num 0) (Num 6) (Num 0) None state_opened)
       = Threw (TypeError OfUndefined)"
    by blast
  from highlight_operations_bounds
      [of state_opened "Num 1" "Num 0" "Num 0" "Num 5" "Num 0" None] t1 o5 e5
  have 5: "fst (highlightText (Num 1) (Num 0) (Num 0) (Num 5) (Num 0) None state_opened)
       = Threw (TypeError OfUndefined)"
    by blast
  from highlight_operations_bounds
      [of s2 "Num 1" "Num 0" "Num 0" "Num 5" "Num 0" None] t2 o2 x5
  have 6: "fst (highlightText (Num 1) (Num 0) (Num 0) (Num 5) (Num 0) None s2)
       = Threw (TypeError OfTextNode)"
    by blast
  from 1 2 3 4 5 6 show ?thesis unfolding s2_def by simp
qed

text \<open>
  C2 as stated fails: \<^verbatim>\<open>highlightText(1, 0, 0, 5, 0)\<close> on a page of two text divs passes
  the page check, rewrites the two text divs, then reads \<^verbatim>\<open>textDivs[2]\<close>, outside the
  array, and throws on the \<^verbatim>\<open>undefined\<close> it gets.
\<close>

theorem unchecked_index_counterexample:
  "array_get [Element [''textLayerNode''] None [TextNode ''Hello ''],
              Element [''textLayerNode''] None [TextNode ''world'']] (Num 2) = None
   \<and> fst (highlightText (Num 1) (Num 0) (Num 0) (Num 5) (Num 0) None state_opened)
       = Threw (TypeError OfUndefined)
   \<and> map_option (map (map_option textDivs \<circ> pv_textLayer)) (hs_pages state_after_long_selection)
       = Some [Some [Element [''textLayerNode''] None
                       [TextNode [],
                        Element [''mod-focused'', ''begin'', ''selected'', ''pdf-plus-backlink'',
                                 ''appended''] None [TextNode ''Hello '']],
                     Element [''textLayerNode'', ''mod-focused'', ''middle'', ''selected'',
                              ''pdf-plus-backlink''] None [TextNode ''world'']],
               None]"
  by code_simp

end
